theory Spec2Isabelle
  imports Main "HOL-Library.AList" "HOL-Library.Sublist"
begin

section \<open>x2node-pointers: JSON pointers (RFC 6901) over schema-described records\<close>

text \<open>
  A shallow embedding of \<^verbatim>\<open>lib/record-element-pointer.js\<close>.  JavaScript strings are
  modelled as \<^typ>\<open>string\<close>, exceptions as the left summand of a sum type, the mutable
  record as a heap of arrays and plain objects addressed by references, and every
  method that may mutate takes the heap and returns the heap it leaves behind, also
  when it throws.
\<close>

subsection \<open>Errors\<close>

text \<open>
  \<open>X2SyntaxError ptr detail\<close> stands for the message
  \<^verbatim>\<open>Invalid record element pointer "<ptr>"<detail>\<close>; the other two X2 errors carry
  their message.  \<open>TypeError\<close> is the JavaScript runtime's own error (a property read
  on \<^verbatim>\<open>null\<close>, a call of something that is not a function, a write to a property
  of a primitive in strict mode).  \<open>Unmodelled\<close> marks the few runtime behaviours that
  the value model below does not express: a write to an array other than the overwrite
  of an existing element, \<^verbatim>\<open>delete\<close> on an array, a named member of an array, a
  string, a number or a boolean, any operation on a built-in function or prototype
  object, the inherited setter of \<^verbatim>\<open>__proto__\<close>, and the numeric coercion of a string
  or an object in a comparison.  The pointer code reaches them only on a record that
  does not match the pointer's record type (an array or a scalar where the schema
  declares an object or a map, a \<^verbatim>\<open>length\<close> that is not a number) or after a read
  has returned an inherited member.
\<close>

datatype x2error =
    X2SyntaxError string string
  | X2UsageError string
  | X2DataError string
  | TypeError
  | Unmodelled

subsection \<open>String primitives\<close>

text \<open>\<^verbatim>\<open>s.split('/')\<close>: never empty, the empty string gives one empty token.\<close>

fun split :: "char \<Rightarrow> string \<Rightarrow> string list" where
  "split sep [] = [[]]"
| "split sep (c # cs) =
     (if c = sep then [] # split sep cs
      else (case split sep cs of
              [] \<Rightarrow> [[c]]
            | t # ts \<Rightarrow> (c # t) # ts))"

text \<open>\<^verbatim>\<open>token.replace(/~[01]/g, m => (m === '~0' ? '~' : '/'))\<close>\<close>

fun unescapeToken :: "string \<Rightarrow> string" where
  "unescapeToken [] = []"
| "unescapeToken [c] = [c]"
| "unescapeToken (c # d # cs) =
     (if c = CHR ''~'' \<and> d = CHR ''0'' then CHR ''~'' # unescapeToken cs
      else if c = CHR ''~'' \<and> d = CHR ''1'' then CHR ''/'' # unescapeToken cs
      else c # unescapeToken (d # cs))"

text \<open>\<^verbatim>\<open>token.replace(/[~\/]/g, m => (m === '~' ? '~0' : '~1'))\<close>\<close>

fun escapeToken :: "string \<Rightarrow> string" where
  "escapeToken [] = []"
| "escapeToken (c # cs) =
     (if c = CHR ''~'' then CHR ''~'' # CHR ''0'' # escapeToken cs
      else if c = CHR ''/'' then CHR ''~'' # CHR ''1'' # escapeToken cs
      else c # escapeToken cs)"

definition isDigit :: "char \<Rightarrow> bool" where
  "isDigit c = (c \<in> set ''0123456789'')"

text \<open>\<^verbatim>\<open>/^(?:0|[1-9][0-9]*)$/.test(token)\<close>\<close>

definition isArrayIndexToken :: "string \<Rightarrow> bool" where
  "isArrayIndexToken t =
     (t = ''0'' \<or>
      (case t of
         [] \<Rightarrow> False
       | c # cs \<Rightarrow> isDigit c \<and> c \<noteq> CHR ''0'' \<and> list_all isDigit cs))"

definition digitValue :: "char \<Rightarrow> nat" where
  "digitValue c = of_char c - 48"

text \<open>
  \<^verbatim>\<open>Number(token)\<close> on a token that passed the test above.  The result is kept as
  an exact natural number; JavaScript rounds above \<open>2^53\<close>, which no array length
  reaches, so comparisons with a length and element reads are not affected.
\<close>

definition Number :: "string \<Rightarrow> nat" where
  "Number t = foldl (\<lambda>n c. 10 * n + digitValue c) 0 t"

text \<open>\<^verbatim>\<open>token.indexOf(':')\<close>, \<open>-1\<close> when absent.\<close>

definition indexOf :: "string \<Rightarrow> char \<Rightarrow> int" where
  "indexOf s c =
     (let pre = takeWhile (\<lambda>x. x \<noteq> c) s
      in if length pre = length s then -1 else int (length pre))"

subsection \<open>The schema collaborator (x2node-records)\<close>

text \<open>
  Modelled from the spec: the schema collaborator interface (section 6), which the
  external library \<^verbatim>\<open>x2node-records\<close> implements.  Its descriptors are taken as
  data exposing exactly what the pointer code reads: for a property descriptor
  \<^verbatim>\<open>name\<close>, \<^verbatim>\<open>isArray()\<close>, \<^verbatim>\<open>isMap()\<close>, \<^verbatim>\<open>scalarValueType\<close>,
  \<^verbatim>\<open>container.nestedPath\<close> and \<^verbatim>\<open>nestedProperties\<close>; for a properties container
  \<^verbatim>\<open>isPolymorphObject()\<close>, \<^verbatim>\<open>typePropertyName\<close>, \<^verbatim>\<open>nestedPath\<close> and its
  properties by name.
\<close>

datatype propDesc =
  PropDesc
    (name: string)
    (isArray: bool)
    (isMap: bool)
    (scalarValueType: string)
    (containerNestedPath: string)
    (nestedProperties: "container option")
and container =
  Container
    (isPolymorphObject: bool)
    (typePropertyName: string)
    (nestedPath: string)
    (properties: "(string \<times> propDesc) list")

text \<open>Modelled from the spec: \<^verbatim>\<open>hasProperty(name)\<close> of the collaborator.\<close>

definition hasProperty :: "container \<Rightarrow> string \<Rightarrow> bool" where
  "hasProperty c n = (map_of (properties c) n \<noteq> None)"

text \<open>
  Modelled from the spec: \<^verbatim>\<open>getPropertyDesc(name)\<close> of the collaborator.  On an
  unknown name it throws; the pointer code calls it after \<^verbatim>\<open>hasProperty\<close>, except
  for the type property of a polymorphic container.
\<close>

definition getPropertyDesc :: "container \<Rightarrow> string \<Rightarrow> x2error + propDesc" where
  "getPropertyDesc c n =
     (case map_of (properties c) n of
        None \<Rightarrow> Inl (X2UsageError (''No such property: '' @ n))
      | Some d \<Rightarrow> Inr d)"

subsection \<open>Pointer nodes\<close>

text \<open>
  \<^verbatim>\<open>_collectionElementIndex\<close> is \<^verbatim>\<open>undefined\<close>, a number, or a string (the map key,
  or the dash \<^verbatim>\<open>'-'\<close> of an array).
\<close>

datatype jsindex = IndexUndefined | IndexNumber nat | IndexString string

datatype pointer =
  RecordElementPointer
    (parent: "pointer option")
    (propDesc: "propDesc option")
    (propPath: string)
    (collectionElement: bool)
    (collectionElementIndex: jsindex)
    (childrenContainer: "container option")
    (pointerString: string)

text \<open>The constructor: the cached pointer string is built from the parent's.\<close>

definition newPointer ::
  "pointer option \<Rightarrow> string \<Rightarrow> propDesc option \<Rightarrow> string \<Rightarrow> bool \<Rightarrow> jsindex \<Rightarrow>
   container option \<Rightarrow> pointer" where
  "newPointer par pointerToken pd ppath ce cei cc =
     RecordElementPointer par pd ppath ce cei cc
       (case par of
          Some p \<Rightarrow> pointerString p @ ''/'' @ escapeToken pointerToken
        | None \<Rightarrow> [])"

text \<open>\<^verbatim>\<open>_pointerChain\<close>: the node itself first, the root last.\<close>

fun pointerChain :: "pointer \<Rightarrow> pointer list" where
  "pointerChain (RecordElementPointer par pd ppath ce cei cc s) =
     RecordElementPointer par pd ppath ce cei cc s #
       (case par of None \<Rightarrow> [] | Some q \<Rightarrow> pointerChain q)"

definition isRoot :: "pointer \<Rightarrow> bool" where
  "isRoot p = (parent p = None)"

definition toString :: "pointer \<Rightarrow> string" where
  "toString p = pointerString p"

definition rootPointer :: "container \<Rightarrow> pointer" where
  "rootPointer recordTypeDesc =
     newPointer None [] None [] False IndexUndefined (Some recordTypeDesc)"

subsection \<open>Resolving one token\<close>

text \<open>The last part of \<^verbatim>\<open>_createChildPointer\<close>: a regular object property.\<close>

definition regularProperty ::
  "pointer \<Rightarrow> container \<Rightarrow> string \<Rightarrow> string \<Rightarrow> x2error + pointer" where
  "regularProperty p cc pointerToken fullPointer =
     (if \<not> hasProperty cc pointerToken
      then Inl (X2SyntaxError fullPointer '': no such property.'')
      else (case getPropertyDesc cc pointerToken of
              Inl e \<Rightarrow> Inl e
            | Inr childPropDesc \<Rightarrow>
                Inr (newPointer (Some p) pointerToken (Some childPropDesc)
                       (nestedPath cc @ pointerToken) False IndexUndefined
                       (nestedProperties childPropDesc))))"

text \<open>
  The object-property part of \<^verbatim>\<open>_createChildPointer\<close>, from
  \<^verbatim>\<open>this._childrenContainer.isPolymorphObject()\<close> on.
\<close>

definition objectProperty :: "pointer \<Rightarrow> string \<Rightarrow> string \<Rightarrow> x2error + pointer" where
  "objectProperty p pointerToken fullPointer =
     (case childrenContainer p of
        None \<Rightarrow> Inl TypeError
      | Some cc \<Rightarrow>
          if isPolymorphObject cc then
            if pointerToken = typePropertyName cc then
              (case getPropertyDesc cc pointerToken of
                 Inl e \<Rightarrow> Inl e
               | Inr d \<Rightarrow>
                   Inr (newPointer (Some p) pointerToken (Some d)
                          (nestedPath cc @ pointerToken) False IndexUndefined None))
            else
              (let colonInd = indexOf pointerToken CHR '':''
               in if colonInd > 0 \<and> colonInd < int (length pointerToken) - 1 then
                    (let subtypeName = take (nat colonInd) pointerToken
                     in if hasProperty cc subtypeName then
                          (case getPropertyDesc cc subtypeName of
                             Inl e \<Rightarrow> Inl e
                           | Inr subtypePropDesc \<Rightarrow>
                               (let propName = drop (nat colonInd + 1) pointerToken
                                in case nestedProperties subtypePropDesc of
                                     None \<Rightarrow> Inl TypeError
                                   | Some np \<Rightarrow>
                                       if \<not> hasProperty np propName
                                       then Inl (X2SyntaxError fullPointer
                                                   '': no such property.'')
                                       else (case getPropertyDesc np propName of
                                               Inl e \<Rightarrow> Inl e
                                             | Inr childPropDesc \<Rightarrow>
                                                 Inr (newPointer (Some p) pointerToken
                                                        (Some childPropDesc)
                                                        (nestedPath cc @ subtypeName @
                                                           ''.'' @ propName)
                                                        False IndexUndefined
                                                        (nestedProperties childPropDesc)))))
                        else regularProperty p cc pointerToken fullPointer)
                  else regularProperty p cc pointerToken fullPointer)
          else regularProperty p cc pointerToken fullPointer)"

text \<open>\<^verbatim>\<open>_createChildPointer(pointerToken, fullPointer, noDash)\<close>\<close>

definition priv_createChildPointer ::
  "pointer \<Rightarrow> string \<Rightarrow> string \<Rightarrow> bool \<Rightarrow> x2error + pointer" where
  "priv_createChildPointer p pointerToken fullPointer noDash =
     (if isRoot p then objectProperty p pointerToken fullPointer
      else
        (case propDesc p of
           None \<Rightarrow> Inl TypeError
         | Some d \<Rightarrow>
             if collectionElement p \<and> isArray d \<and>
                collectionElementIndex p = IndexString ''-''
             then Inl (X2SyntaxError fullPointer
                         '': unexpected dash for an array index.'')
             else if \<not> collectionElement p \<and> isArray d then
               (let dash = (pointerToken = ''-'')
                in if dash \<and> noDash
                   then Inl (X2SyntaxError fullPointer
                               '': dash not allowed for an array index in this pointer.'')
                   else if \<not> dash \<and> \<not> isArrayIndexToken pointerToken
                   then Inl (X2SyntaxError fullPointer '': invalid array index.'')
                   else Inr (newPointer (Some p) pointerToken (Some d) (propPath p) True
                               (if dash then IndexString ''-''
                                else IndexNumber (Number pointerToken))
                               (childrenContainer p)))
             else if \<not> collectionElement p \<and> isMap d then
               Inr (newPointer (Some p) pointerToken (Some d) (propPath p) True
                      (IndexString pointerToken) (childrenContainer p))
             else if scalarValueType d \<noteq> ''object''
             then Inl (X2SyntaxError fullPointer
                         ('': '' @ containerNestedPath d @ name d @
                          '' does not have nested elements.''))
             else objectProperty p pointerToken fullPointer))"

text \<open>\<^verbatim>\<open>createChildPointer(pointerToken)\<close>\<close>

definition createChildPointer :: "pointer \<Rightarrow> string \<Rightarrow> x2error + pointer" where
  "createChildPointer p pointerToken =
     priv_createChildPointer p pointerToken
       (pointerString p @ ''/'' @ pointerToken) False"

text \<open>The loop of \<^verbatim>\<open>parse\<close> over the raw tokens that follow the first.\<close>

fun parseTokens ::
  "pointer \<Rightarrow> string list \<Rightarrow> string \<Rightarrow> bool \<Rightarrow> x2error + pointer" where
  "parseTokens lastPointer [] propPointer noDash = Inr lastPointer"
| "parseTokens lastPointer (t # ts) propPointer noDash =
     (case priv_createChildPointer lastPointer (unescapeToken t) propPointer noDash of
        Inl e \<Rightarrow> Inl e
      | Inr q \<Rightarrow> parseTokens q ts propPointer noDash)"

text \<open>
  \<^verbatim>\<open>parse(recordTypeDesc, propPointer, noDash)\<close>; the argument is a string by its
  type, so the \<^verbatim>\<open>typeof\<close> test of the source always passes.
\<close>

definition parse :: "container \<Rightarrow> string \<Rightarrow> bool \<Rightarrow> x2error + pointer" where
  "parse recordTypeDesc propPointer noDash =
     (if length propPointer > 0 \<and> \<not> (take 1 propPointer = ''/'')
      then Inl (X2SyntaxError propPointer '' type or syntax.'')
      else parseTokens (rootPointer recordTypeDesc)
             (tl (split CHR ''/'' propPointer)) propPointer noDash)"

subsection \<open>Record values and the heap\<close>

text \<open>
  A record is plain JSON-like data: \<^verbatim>\<open>undefined\<close>, \<^verbatim>\<open>null\<close>, booleans, numbers,
  strings, and references to arrays and plain objects that live in a heap (a list of
  objects, addressed by position; \<^verbatim>\<open>new Array()\<close> and \<^verbatim>\<open>new Object()\<close> append to
  it).  Objects keep their own properties in insertion order and inherit the members
  of \<^verbatim>\<open>Object.prototype\<close>; a value \<open>JBuiltin path\<close> is one of the runtime's own
  functions or objects, named by its path (\<^verbatim>\<open>Object\<close>,
  \<^verbatim>\<open>Object.prototype.toString\<close>), which a read can return but which does not live
  in the heap.  Getters, proxies and objects with another prototype are outside the
  model.
\<close>

datatype jsval =
  JUndefined | JNull | JBool bool | JNum int | JStr string | JRef nat | JBuiltin string

datatype jsobj = JArray "jsval list" | JObject "(string \<times> jsval) list"

type_synonym heap = "jsobj list"

definition alloc :: "heap \<Rightarrow> jsobj \<Rightarrow> nat \<times> heap" where
  "alloc h ob = (length h, h @ [ob])"

text \<open>A number used as a property key is converted to its decimal string.\<close>

fun string_of_nat :: "nat \<Rightarrow> string" where
  "string_of_nat n =
     (if n < 10 then [char_of (48 + n)]
      else string_of_nat (n div 10) @ [char_of (48 + n mod 10)])"

definition keyString :: "jsindex \<Rightarrow> string" where
  "keyString k =
     (case k of
        IndexUndefined \<Rightarrow> ''undefined''
      | IndexNumber n \<Rightarrow> string_of_nat n
      | IndexString s \<Rightarrow> s)"

text \<open>A key addresses an array element when it is a number or a canonical numeric string.\<close>

definition toArrayIndex :: "jsindex \<Rightarrow> nat option" where
  "toArrayIndex k =
     (case k of
        IndexUndefined \<Rightarrow> None
      | IndexNumber n \<Rightarrow> Some n
      | IndexString s \<Rightarrow> (if isArrayIndexToken s then Some (Number s) else None))"

text \<open>
  What a plain object inherits from \<^verbatim>\<open>Object.prototype\<close> under a name:
  \<^verbatim>\<open>constructor\<close> is the function \<^verbatim>\<open>Object\<close>, \<^verbatim>\<open>__proto__\<close> reads as the
  prototype itself, the other members are its methods.
\<close>

definition objectPrototypeMember :: "string \<Rightarrow> jsval option" where
  "objectPrototypeMember k =
     (if k = ''constructor'' then Some (JBuiltin ''Object'')
      else if k = ''__proto__'' then Some (JBuiltin ''Object.prototype'')
      else if k \<in> set [''hasOwnProperty'', ''isPrototypeOf'', ''propertyIsEnumerable'',
                        ''toLocaleString'', ''toString'', ''valueOf'',
                        ''__defineGetter__'', ''__defineSetter__'',
                        ''__lookupGetter__'', ''__lookupSetter__'']
      then Some (JBuiltin (''Object.prototype.'' @ k))
      else None)"

text \<open>
  The names under which a number or a boolean finds a member on its prototype chain
  (\<^verbatim>\<open>Number.prototype\<close> or \<^verbatim>\<open>Boolean.prototype\<close>, then \<^verbatim>\<open>Object.prototype\<close>).
\<close>

definition primitiveInherits :: "string \<Rightarrow> bool" where
  "primitiveInherits k =
     (objectPrototypeMember k \<noteq> None \<or>
      k \<in> set [''toExponential'', ''toFixed'', ''toPrecision''])"

text \<open>
  \<^verbatim>\<open>obj[k]\<close> as an expression: throws on \<^verbatim>\<open>null\<close> and \<^verbatim>\<open>undefined\<close>; on a plain
  object an own property first, then the prototype chain.  A named member of an array
  or a string (other than \<^verbatim>\<open>length\<close>), an inherited member of a number or a boolean
  and any property of a built-in are not modelled: the members of
  \<^verbatim>\<open>Array.prototype\<close> and \<^verbatim>\<open>String.prototype\<close> depend on the version of the
  runtime.
\<close>

definition js_get :: "heap \<Rightarrow> jsval \<Rightarrow> jsindex \<Rightarrow> x2error + jsval" where
  "js_get h obj k =
     (case obj of
        JUndefined \<Rightarrow> Inl TypeError
      | JNull \<Rightarrow> Inl TypeError
      | JBool b \<Rightarrow>
          (if primitiveInherits (keyString k) then Inl Unmodelled else Inr JUndefined)
      | JNum n \<Rightarrow>
          (if primitiveInherits (keyString k) then Inl Unmodelled else Inr JUndefined)
      | JStr s \<Rightarrow>
          (case toArrayIndex k of
             Some n \<Rightarrow> Inr (if n < length s then JStr [s ! n] else JUndefined)
           | None \<Rightarrow>
               (if keyString k = ''length'' then Inr (JNum (int (length s)))
                else Inl Unmodelled))
      | JBuiltin path \<Rightarrow> Inl Unmodelled
      | JRef a \<Rightarrow>
          if a < length h then
            (case h ! a of
               JArray xs \<Rightarrow>
                 (case toArrayIndex k of
                    Some n \<Rightarrow> Inr (if n < length xs then xs ! n else JUndefined)
                  | None \<Rightarrow>
                      (if keyString k = ''length'' then Inr (JNum (int (length xs)))
                       else Inl Unmodelled))
             | JObject kvs \<Rightarrow>
                 (case map_of kvs (keyString k) of
                    Some v \<Rightarrow> Inr v
                  | None \<Rightarrow>
                      (case objectPrototypeMember (keyString k) of
                         Some member \<Rightarrow> Inr member
                       | None \<Rightarrow> Inr JUndefined)))
          else Inl TypeError)"

text \<open>
  \<^verbatim>\<open>obj[k] = v\<close> in strict mode: a \<^verbatim>\<open>TypeError\<close> on a primitive.  On a plain
  object the assignment updates or creates an own property, except under the name
  \<^verbatim>\<open>__proto__\<close> when the object has no own property of that name: the inherited
  setter runs instead, which is not modelled.  On an array only the overwrite of an
  existing element is modelled.
\<close>

definition js_set :: "heap \<Rightarrow> jsval \<Rightarrow> jsindex \<Rightarrow> jsval \<Rightarrow> x2error + heap" where
  "js_set h obj k v =
     (case obj of
        JRef a \<Rightarrow>
          if a < length h then
            (case h ! a of
               JObject kvs \<Rightarrow>
                 (if keyString k = ''__proto__'' \<and> map_of kvs ''__proto__'' = None
                  then Inl Unmodelled
                  else Inr (h[a := JObject (AList.update (keyString k) v kvs)]))
             | JArray xs \<Rightarrow>
                 (case toArrayIndex k of
                    Some n \<Rightarrow>
                      (if n < length xs then Inr (h[a := JArray (xs[n := v])])
                       else Inl Unmodelled)
                  | None \<Rightarrow> Inl Unmodelled))
          else Inl TypeError
      | JBuiltin path \<Rightarrow> Inl Unmodelled
      | _ \<Rightarrow> Inl TypeError)"

text \<open>
  \<^verbatim>\<open>delete obj[k]\<close> in strict mode: it removes an own property and leaves inherited
  members alone; deleting from an array or a built-in is not modelled.
\<close>

definition js_delete :: "heap \<Rightarrow> jsval \<Rightarrow> jsindex \<Rightarrow> x2error + heap" where
  "js_delete h obj k =
     (case obj of
        JUndefined \<Rightarrow> Inl TypeError
      | JNull \<Rightarrow> Inl TypeError
      | JBool b \<Rightarrow> Inr h
      | JNum n \<Rightarrow> Inr h
      | JStr s \<Rightarrow>
          (case toArrayIndex k of
             Some n \<Rightarrow> (if n < length s then Inl TypeError else Inr h)
           | None \<Rightarrow> (if keyString k = ''length'' then Inl TypeError else Inr h))
      | JBuiltin path \<Rightarrow> Inl Unmodelled
      | JRef a \<Rightarrow>
          if a < length h then
            (case h ! a of
               JObject kvs \<Rightarrow> Inr (h[a := JObject (AList.delete (keyString k) kvs)])
             | JArray xs \<Rightarrow> Inl Unmodelled)
          else Inl TypeError)"

text \<open>
  \<^verbatim>\<open>obj.push(v)\<close>: among the values of the heap only an array has a callable
  \<^verbatim>\<open>push\<close>; on a plain object the call throws, unless an own property
  \<^verbatim>\<open>push\<close> holds a built-in function, whose call is not modelled.
\<close>

definition js_push :: "heap \<Rightarrow> jsval \<Rightarrow> jsval \<Rightarrow> x2error + heap" where
  "js_push h obj v =
     (case obj of
        JRef a \<Rightarrow>
          if a < length h then
            (case h ! a of
               JArray xs \<Rightarrow> Inr (h[a := JArray (xs @ [v])])
             | JObject kvs \<Rightarrow>
                 (case map_of kvs ''push'' of
                    Some (JBuiltin path) \<Rightarrow> Inl Unmodelled
                  | _ \<Rightarrow> Inl TypeError))
          else Inl TypeError
      | JBuiltin path \<Rightarrow> Inl Unmodelled
      | _ \<Rightarrow> Inl TypeError)"

text \<open>\<^verbatim>\<open>obj.splice(start, deleteCount, ...items)\<close> with a numeric start, as \<^verbatim>\<open>push\<close>.\<close>

definition js_splice ::
  "heap \<Rightarrow> jsval \<Rightarrow> jsindex \<Rightarrow> nat \<Rightarrow> jsval list \<Rightarrow> x2error + heap" where
  "js_splice h obj start deleteCount items =
     (case obj of
        JRef a \<Rightarrow>
          if a < length h then
            (case h ! a of
               JArray xs \<Rightarrow>
                 (case start of
                    IndexNumber n \<Rightarrow>
                      Inr (h[a := JArray (take n xs @ items @ drop (n + deleteCount) xs)])
                  | _ \<Rightarrow> Inl Unmodelled)
             | JObject kvs \<Rightarrow>
                 (case map_of kvs ''splice'' of
                    Some (JBuiltin path) \<Rightarrow> Inl Unmodelled
                  | _ \<Rightarrow> Inl TypeError))
          else Inl TypeError
      | JBuiltin path \<Rightarrow> Inl Unmodelled
      | _ \<Rightarrow> Inl TypeError)"

text \<open>
  \<^verbatim>\<open>index < len\<close> for a numeric index: \<^verbatim>\<open>undefined\<close> converts to NaN, \<^verbatim>\<open>null\<close>
  to 0, a boolean to 0 or 1.
\<close>

definition js_lt :: "jsindex \<Rightarrow> jsval \<Rightarrow> x2error + bool" where
  "js_lt k len =
     (case k of
        IndexNumber n \<Rightarrow>
          (case len of
             JNum m \<Rightarrow> Inr (int n < m)
           | JUndefined \<Rightarrow> Inr False
           | JNull \<Rightarrow> Inr False
           | JBool b \<Rightarrow> Inr (int n < (if b then 1 else 0))
           | _ \<Rightarrow> Inl Unmodelled)
      | _ \<Rightarrow> Inl Unmodelled)"

definition js_truthy :: "jsval \<Rightarrow> bool" where
  "js_truthy v =
     (case v of
        JUndefined \<Rightarrow> False
      | JNull \<Rightarrow> False
      | JBool b \<Rightarrow> b
      | JNum n \<Rightarrow> n \<noteq> 0
      | JStr s \<Rightarrow> s \<noteq> []
      | JRef a \<Rightarrow> True
      | JBuiltin path \<Rightarrow> True)"

subsection \<open>Walking the chain\<close>

text \<open>
  \<^verbatim>\<open>chain.reduceRight(f, record)\<close>: the callback runs from the last element of the
  chain (the root) to the first (the leaf), with the element's position in the chain;
  an exception ends the walk and keeps the state reached.
\<close>

fun reduceRightFrom ::
  "nat \<Rightarrow> (jsval \<Rightarrow> pointer \<Rightarrow> nat \<Rightarrow> 's \<Rightarrow> (x2error + jsval) \<times> 's) \<Rightarrow> pointer list \<Rightarrow>
   jsval \<Rightarrow> 's \<Rightarrow> (x2error + jsval) \<times> 's" where
  "reduceRightFrom i f [] acc s = (Inr acc, s)"
| "reduceRightFrom i f (p # ps) acc s =
     (case reduceRightFrom (Suc i) f ps acc s of
        (Inl e, s') \<Rightarrow> (Inl e, s')
      | (Inr obj, s') \<Rightarrow> f obj p i s')"

definition reduceRight ::
  "(jsval \<Rightarrow> pointer \<Rightarrow> nat \<Rightarrow> 's \<Rightarrow> (x2error + jsval) \<times> 's) \<Rightarrow> pointer list \<Rightarrow>
   jsval \<Rightarrow> 's \<Rightarrow> (x2error + jsval) \<times> 's" where
  "reduceRight f ps acc s = reduceRightFrom 0 f ps acc s"

definition noValue :: "pointer \<Rightarrow> x2error" where
  "noValue p = X2DataError (''No property value at '' @ pointerString p @ ''.'')"

text \<open>The two places of \<^verbatim>\<open>_getImmediateValue\<close> that substitute an empty container.\<close>

definition emptyContainer ::
  "jsobj \<Rightarrow> jsval \<Rightarrow> string \<Rightarrow> bool \<Rightarrow> heap \<Rightarrow> (x2error + jsval) \<times> heap" where
  "emptyContainer ob obj nm forSet h =
     (let (a, h1) = alloc h ob
      in if forSet then
           (case js_set h1 obj (IndexString nm) (JRef a) of
              Inl e \<Rightarrow> (Inl e, h1)
            | Inr h2 \<Rightarrow> (Inr (JRef a), h2))
         else (Inr (JRef a), h1))"

text \<open>\<^verbatim>\<open>_getImmediateValue(obj, i, forSet)\<close>\<close>

definition priv_getImmediateValue ::
  "pointer \<Rightarrow> jsval \<Rightarrow> nat \<Rightarrow> bool \<Rightarrow> heap \<Rightarrow> (x2error + jsval) \<times> heap" where
  "priv_getImmediateValue p obj i forSet h =
     (if isRoot p then (Inr obj, h)
      else
        (case propDesc p of
           None \<Rightarrow> (Inl TypeError, h)
         | Some d \<Rightarrow>
             if isArray d \<and> collectionElement p then
               (if collectionElementIndex p \<noteq> IndexString ''-'' then
                  (case js_get h obj (collectionElementIndex p) of
                     Inl e \<Rightarrow> (Inl e, h)
                   | Inr val \<Rightarrow>
                       if (val = JUndefined \<or> val = JNull) \<and> i > 0
                       then (Inl (noValue p), h)
                       else (Inr val, h))
                else (Inr JUndefined, h))
             else if isMap d \<and> collectionElement p then
               (case js_get h obj (collectionElementIndex p) of
                  Inl e \<Rightarrow> (Inl e, h)
                | Inr val \<Rightarrow>
                    if (val = JUndefined \<or> val = JNull) \<and> i > 0
                    then (Inl (noValue p), h)
                    else (Inr val, h))
             else
               (case js_get h obj (IndexString (name d)) of
                  Inl e \<Rightarrow> (Inl e, h)
                | Inr val0 \<Rightarrow>
                    (let val = (if val0 = JUndefined then JNull else val0)
                     in if val = JNull \<and> i > 0 then
                          (if i > 1 then (Inl (noValue p), h)
                           else if isArray d then
                             emptyContainer (JArray []) obj (name d) forSet h
                           else if isMap d then
                             emptyContainer (JObject []) obj (name d) forSet h
                           else (Inl (noValue p), h))
                        else (Inr val, h)))))"

text \<open>\<^verbatim>\<open>getValue(record)\<close> without a trace callback.\<close>

definition getValueStep ::
  "jsval \<Rightarrow> pointer \<Rightarrow> nat \<Rightarrow> heap \<Rightarrow> (x2error + jsval) \<times> heap" where
  "getValueStep obj p i h = priv_getImmediateValue p obj i False h"

definition getValue :: "pointer \<Rightarrow> jsval \<Rightarrow> heap \<Rightarrow> (x2error + jsval) \<times> heap" where
  "getValue P record h = reduceRight getValueStep (pointerChain P) record h"

text \<open>
  \<^verbatim>\<open>getValue(record, traceFunc)\<close>: the callback is the caller's code; it is a
  function of the caller's own state \<open>'t\<close>, called with the node, its value and its
  depth after each node is read, and not called for a node whose read throws.
\<close>

definition tracedStep ::
  "(pointer \<Rightarrow> jsval \<Rightarrow> nat \<Rightarrow> 't \<Rightarrow> 't) \<Rightarrow> jsval \<Rightarrow> pointer \<Rightarrow> nat \<Rightarrow> heap \<times> 't \<Rightarrow>
   (x2error + jsval) \<times> heap \<times> 't" where
  "tracedStep traceFunc obj p i s =
     (case priv_getImmediateValue p obj i False (fst s) of
        (Inl e, h') \<Rightarrow> (Inl e, (h', snd s))
      | (Inr val, h') \<Rightarrow> (Inr val, (h', traceFunc p val i (snd s))))"

definition getValueTraced ::
  "pointer \<Rightarrow> jsval \<Rightarrow> (pointer \<Rightarrow> jsval \<Rightarrow> nat \<Rightarrow> 't \<Rightarrow> 't) \<Rightarrow> heap \<times> 't \<Rightarrow>
   (x2error + jsval) \<times> heap \<times> 't" where
  "getValueTraced P record traceFunc s =
     reduceRight (tracedStep traceFunc) (pointerChain P) record s"

text \<open>
  The leaf mutation of \<^verbatim>\<open>_setValue\<close> (the body of \<^verbatim>\<open>if (i === 0)\<close>), the flag
  \<^verbatim>\<open>insert\<close> written \<open>ins\<close>.  A node without a descriptor never gets here:
  \<^verbatim>\<open>_getImmediateValue\<close> has thrown on it.
\<close>

definition setLeaf ::
  "pointer \<Rightarrow> jsval \<Rightarrow> jsval \<Rightarrow> bool \<Rightarrow> heap \<Rightarrow> x2error + heap" where
  "setLeaf p obj v ins h =
     (case propDesc p of
        None \<Rightarrow> Inl TypeError
      | Some d \<Rightarrow>
          if collectionElement p \<and> isArray d then
            (if collectionElementIndex p = IndexString ''-'' then
               (if \<not> ins then Inl (X2UsageError ''May not replace dash index.'')
                else js_push h obj v)
             else
               (case js_get h obj (IndexString ''length'') of
                  Inl e \<Rightarrow> Inl e
                | Inr len \<Rightarrow>
                    (case js_lt (collectionElementIndex p) len of
                       Inl e \<Rightarrow> Inl e
                     | Inr True \<Rightarrow>
                         (if ins then js_splice h obj (collectionElementIndex p) 0 [v]
                          else js_set h obj (collectionElementIndex p) v)
                     | Inr False \<Rightarrow> Inl (X2DataError ''Array index is out of bounds.''))))
          else if collectionElement p \<and> isMap d then
            js_set h obj (collectionElementIndex p) v
          else js_set h obj (IndexString (name d)) v)"

text \<open>The callback that \<^verbatim>\<open>_setValue\<close> passes to \<^verbatim>\<open>reduceRight\<close>.\<close>

definition setValueStep ::
  "jsval \<Rightarrow> bool \<Rightarrow> jsval \<Rightarrow> pointer \<Rightarrow> nat \<Rightarrow> heap \<Rightarrow> (x2error + jsval) \<times> heap" where
  "setValueStep v ins obj p i h =
     (case priv_getImmediateValue p obj i True h of
        (Inl e, h1) \<Rightarrow> (Inl e, h1)
      | (Inr c, h1) \<Rightarrow>
          if i = 0 then
            (case setLeaf p obj v ins h1 of
               Inl e \<Rightarrow> (Inl e, h1)
             | Inr h2 \<Rightarrow> (Inr c, h2))
          else (Inr c, h1))"

text \<open>\<^verbatim>\<open>_setValue(record, value, insert)\<close>\<close>

definition priv_setValue ::
  "pointer \<Rightarrow> jsval \<Rightarrow> jsval \<Rightarrow> bool \<Rightarrow> heap \<Rightarrow> (x2error + jsval) \<times> heap" where
  "priv_setValue P record v ins h =
     (if isRoot P then (Inl (X2UsageError ''May not replace the whole record.''), h)
      else if v = JUndefined
      then (Inl (X2UsageError ''May not use undefined as a value.''), h)
      else if v = JNull \<and> collectionElement P \<and> propDesc P = None
      then (Inl TypeError, h)
      else if v = JNull \<and> collectionElement P \<and>
              map_option scalarValueType (propDesc P) = Some ''object''
      then (Inl (X2UsageError ''May not use null as a value.''), h)
      else reduceRight (setValueStep v ins) (pointerChain P) record h)"

definition addValue :: "pointer \<Rightarrow> jsval \<Rightarrow> jsval \<Rightarrow> heap \<Rightarrow> (x2error + jsval) \<times> heap" where
  "addValue P record v h = priv_setValue P record v True h"

definition replaceValue ::
  "pointer \<Rightarrow> jsval \<Rightarrow> jsval \<Rightarrow> heap \<Rightarrow> (x2error + jsval) \<times> heap" where
  "replaceValue P record v h = priv_setValue P record v False h"

text \<open>The leaf mutation of \<^verbatim>\<open>removeValue\<close> (the body of \<^verbatim>\<open>if (i === 0)\<close>).\<close>

definition removeLeaf :: "pointer \<Rightarrow> jsval \<Rightarrow> heap \<Rightarrow> x2error + heap" where
  "removeLeaf p obj h =
     (case propDesc p of
        None \<Rightarrow> Inl TypeError
      | Some d \<Rightarrow>
          if collectionElement p \<and> isArray d then
            (if collectionElementIndex p = IndexString ''-''
             then Inl (X2UsageError ''May not delete dash index.'')
             else if \<not> js_truthy obj
             then Inl (X2DataError ''Array index is out of bounds.'')
             else
               (case js_get h obj (IndexString ''length'') of
                  Inl e \<Rightarrow> Inl e
                | Inr len \<Rightarrow>
                    (case js_lt (collectionElementIndex p) len of
                       Inl e \<Rightarrow> Inl e
                     | Inr True \<Rightarrow> js_splice h obj (collectionElementIndex p) 1 []
                     | Inr False \<Rightarrow> Inl (X2DataError ''Array index is out of bounds.''))))
          else if js_truthy obj then
            (if collectionElement p \<and> isMap d
             then js_delete h obj (collectionElementIndex p)
             else js_delete h obj (IndexString (name d)))
          else Inr h)"

text \<open>The callback that \<^verbatim>\<open>removeValue\<close> passes to \<^verbatim>\<open>reduceRight\<close>.\<close>

definition removeValueStep ::
  "jsval \<Rightarrow> pointer \<Rightarrow> nat \<Rightarrow> heap \<Rightarrow> (x2error + jsval) \<times> heap" where
  "removeValueStep obj p i h =
     (case priv_getImmediateValue p obj i False h of
        (Inl e, h1) \<Rightarrow> (Inl e, h1)
      | (Inr c, h1) \<Rightarrow>
          if i = 0 then
            (case removeLeaf p obj h1 of
               Inl e \<Rightarrow> (Inl e, h1)
             | Inr h2 \<Rightarrow> (Inr c, h2))
          else (Inr c, h1))"

text \<open>\<^verbatim>\<open>removeValue(record)\<close>\<close>

definition removeValue :: "pointer \<Rightarrow> jsval \<Rightarrow> heap \<Rightarrow> (x2error + jsval) \<times> heap" where
  "removeValue P record h =
     (if isRoot P then (Inl (X2UsageError ''May not delete the whole record.''), h)
      else reduceRight removeValueStep (pointerChain P) record h)"

subsection \<open>Notions used in the statements\<close>

text \<open>
  The specification's wording of an array index token: a base-10 non-negative integer
  with no leading zeros, \<^verbatim>\<open>0\<close> alone allowed.
\<close>

definition decimalNoLeadingZeros :: "string \<Rightarrow> bool" where
  "decimalNoLeadingZeros t =
     (t \<noteq> [] \<and> list_all isDigit t \<and> (hd t = CHR ''0'' \<longrightarrow> t = ''0''))"

text \<open>RFC 6901 escaping: every \<^verbatim>\<open>~\<close> is followed by \<^verbatim>\<open>0\<close> or \<^verbatim>\<open>1\<close>.\<close>

fun wellEscaped :: "string \<Rightarrow> bool" where
  "wellEscaped [] = True"
| "wellEscaped [c] = (c \<noteq> CHR ''~'')"
| "wellEscaped (c # d # cs) =
     (if c = CHR ''~'' then (d = CHR ''0'' \<or> d = CHR ''1'') \<and> wellEscaped cs
      else wellEscaped (d # cs))"

text \<open>
  The class of an outcome: the error without the pointer string quoted in its message
  (\<^verbatim>\<open>createChildPointer\<close> quotes the unescaped token, \<^verbatim>\<open>parse\<close> its argument).
\<close>

fun forgetPointer :: "x2error \<Rightarrow> x2error" where
  "forgetPointer (X2SyntaxError fullPointer detail) = X2SyntaxError [] detail"
| "forgetPointer e = e"

definition outcomeClass :: "x2error + pointer \<Rightarrow> x2error + pointer" where
  "outcomeClass r = (case r of Inl e \<Rightarrow> Inl (forgetPointer e) | Inr q \<Rightarrow> Inr q)"

text \<open>
  Pointers exist only as results of \<^verbatim>\<open>_createChildPointer\<close> calls that start at a
  root: \<open>createChildren\<close> runs such a sequence of calls, each with its own token, full
  pointer and dash flag.
\<close>

fun createChildren ::
  "pointer \<Rightarrow> (string \<times> string \<times> bool) list \<Rightarrow> x2error + pointer" where
  "createChildren p [] = Inr p"
| "createChildren p ((pointerToken, fullPointer, noDash) # steps) =
     (case priv_createChildPointer p pointerToken fullPointer noDash of
        Inl e \<Rightarrow> Inl e
      | Inr q \<Rightarrow> createChildren q steps)"

text \<open>
  The state in which an operation calls its callback on the leaf: the walk over the
  nodes above the leaf, whose positions in the chain start at 1.
\<close>

definition walkToLeaf ::
  "(jsval \<Rightarrow> pointer \<Rightarrow> nat \<Rightarrow> 's \<Rightarrow> (x2error + jsval) \<times> 's) \<Rightarrow> pointer \<Rightarrow> jsval \<Rightarrow> 's \<Rightarrow>
   (x2error + jsval) \<times> 's" where
  "walkToLeaf f P record s = reduceRightFrom 1 f (tl (pointerChain P)) record s"

subsection \<open>Example schema\<close>

text \<open>
  An order with an array of nested objects \<^verbatim>\<open>items\<close> (each with a number
  \<^verbatim>\<open>quantity\<close> and an array of strings \<^verbatim>\<open>notes\<close>), a map of strings \<^verbatim>\<open>tags\<close>
  and a string \<^verbatim>\<open>comment\<close>.
\<close>

definition itemProperties :: container where
  "itemProperties =
     Container False [] ''items.''
       [(''quantity'', PropDesc ''quantity'' False False ''number'' ''items.'' None),
        (''notes'', PropDesc ''notes'' True False ''string'' ''items.'' None)]"

definition itemsDesc :: propDesc where
  "itemsDesc = PropDesc ''items'' True False ''object'' [] (Some itemProperties)"

definition tagsDesc :: propDesc where
  "tagsDesc = PropDesc ''tags'' False True ''string'' [] None"

definition orderSchema :: container where
  "orderSchema =
     Container False [] []
       [(''items'', itemsDesc),
        (''tags'', tagsDesc),
        (''comment'', PropDesc ''comment'' False False ''string'' [] None)]"

text \<open>The pointer that \<^verbatim>\<open>parse\<close> returns for a pointer string of the examples.\<close>

definition parsed :: "container \<Rightarrow> string \<Rightarrow> pointer" where
  "parsed c s = (case parse c s False of Inr P \<Rightarrow> P | Inl e \<Rightarrow> rootPointer c)"

text \<open>The record \<^verbatim>\<open>{items: [{quantity: 2}]}\<close>, at address 0 of its heap.\<close>

definition orderHeap :: heap where
  "orderHeap =
     [JObject [(''items'', JRef 1)], JArray [JRef 2], JObject [(''quantity'', JNum 2)]]"

section \<open>Properties of the parser\<close>

subsection \<open>Tokens, escaping and splitting\<close>

lemma isArrayIndexToken_decimal: "isArrayIndexToken t = decimalNoLeadingZeros t"
  by (cases t) (auto simp: isArrayIndexToken_def decimalNoLeadingZeros_def isDigit_def)

lemma wellEscaped_Cons: "c \<noteq> CHR ''~'' \<Longrightarrow> wellEscaped (c # t) = wellEscaped t"
  by (cases t) auto

lemma escape_unescape:
  "wellEscaped t \<Longrightarrow> CHR ''/'' \<notin> set t \<Longrightarrow> escapeToken (unescapeToken t) = t"
  by (induction t rule: unescapeToken.induct) (auto split: if_splits)

lemma unescape_Cons: "c \<noteq> CHR ''~'' \<Longrightarrow> unescapeToken (c # t) = c # unescapeToken t"
  by (cases t) auto

lemma unescape_escape: "unescapeToken (escapeToken t) = t"
  by (induction t) (auto simp: unescape_Cons)

lemma escape_no_slash: "CHR ''/'' \<notin> set (escapeToken t)"
  by (induction t) auto

lemma wellEscaped_escape: "wellEscaped (escapeToken t)"
  by (induction t) (auto simp: wellEscaped_Cons)

lemma split_nonempty: "split sep s \<noteq> []"
  by (induction s) (auto split: list.splits)

lemma split_join:
  "split sep s = t # ts \<Longrightarrow> s = t @ concat (map (\<lambda>x. sep # x) ts)"
proof (induction s arbitrary: t ts)
  case Nil
  then show ?case by simp
next
  case (Cons c s)
  obtain u us where u: "split sep s = u # us"
    using split_nonempty [of sep s] by (cases "split sep s") auto
  have s: "s = u @ concat (map (\<lambda>x. sep # x) us)"
    by (rule Cons.IH [OF u])
  show ?case
  proof (cases "c = sep")
    case True
    with Cons.prems u have "t = []" "ts = u # us" by auto
    with True s show ?thesis by simp
  next
    case False
    with Cons.prems u have "t = c # u" "ts = us" by auto
    with s show ?thesis by simp
  qed
qed

lemma split_no_sep: "t \<in> set (split sep s) \<Longrightarrow> sep \<notin> set t"
  by (induction s arbitrary: t) (auto split: if_splits list.splits)

lemma split_wellEscaped:
  "wellEscaped s \<Longrightarrow> t \<in> set (split CHR ''/'' s) \<Longrightarrow> wellEscaped t"
proof (induction s arbitrary: t rule: wellEscaped.induct)
  case 1
  then show ?case by simp
next
  case (2 c)
  then show ?case by (auto split: if_splits)
next
  case (3 c d cs)
  then show ?case 
    by (auto split: if_splits list.splits simp: wellEscaped_Cons)
qed

lemma split_Cons_no_sep:
  "c \<noteq> sep \<Longrightarrow> split sep s = u # us \<Longrightarrow> split sep (c # s) = (c # u) # us"
  by simp

lemma split_tokens:
  "sep \<notin> set t0 \<Longrightarrow> \<forall>t \<in> set ts. sep \<notin> set t \<Longrightarrow>
   split sep (t0 @ concat (map (\<lambda>x. sep # x) ts)) = t0 # ts"
proof (induction ts arbitrary: t0)
  case Nil
  then show ?case by (induction t0) auto
next
  case (Cons a ts)
  have a: "split sep (a @ concat (map (\<lambda>x. sep # x) ts)) = a # ts"
    using Cons.IH [of a] Cons.prems by simp
  from Cons.prems(1) show ?case
  proof (induction t0)
    case Nil
    then show ?case using a by simp
  next
    case (Cons c t0)
    then show ?case by auto
  qed
qed

subsection \<open>One call of \<^verbatim>\<open>_createChildPointer\<close>\<close>

lemma regularProperty_Inr:
  "regularProperty p cc t f = Inr q \<Longrightarrow>
   parent q = Some p \<and> pointerString q = pointerString p @ ''/'' @ escapeToken t"
  by (auto simp: regularProperty_def newPointer_def split: if_splits sum.splits)

lemma objectProperty_Inr:
  "objectProperty p t f = Inr q \<Longrightarrow>
   parent q = Some p \<and> pointerString q = pointerString p @ ''/'' @ escapeToken t"
  unfolding objectProperty_def Let_def
  by (auto simp: newPointer_def split: if_splits sum.splits option.splits
           dest: regularProperty_Inr)

lemma createChild_Inr:
  "priv_createChildPointer p t f nd = Inr q \<Longrightarrow>
   parent q = Some p \<and> pointerString q = pointerString p @ ''/'' @ escapeToken t"
  unfolding priv_createChildPointer_def Let_def
  by (auto simp: newPointer_def split: if_splits sum.splits option.splits
           dest: objectProperty_Inr)

lemma outcomeClass_distrib:
  "outcomeClass (Inl e) = Inl (forgetPointer e)"
  "outcomeClass (Inr q) = Inr q"
  "outcomeClass (if b then x else y) = (if b then outcomeClass x else outcomeClass y)"
  "outcomeClass (case opt of None \<Rightarrow> a | Some v \<Rightarrow> g v) =
     (case opt of None \<Rightarrow> outcomeClass a | Some v \<Rightarrow> outcomeClass (g v))"
  "outcomeClass (case sm of Inl e \<Rightarrow> a' e | Inr v \<Rightarrow> g' v) =
     (case sm of Inl e \<Rightarrow> outcomeClass (a' e) | Inr v \<Rightarrow> outcomeClass (g' v))"
  by (auto simp: outcomeClass_def split: option.splits sum.splits)

lemma regularProperty_full:
  "outcomeClass (regularProperty p cc t f) = outcomeClass (regularProperty p cc t f')"
  by (simp add: regularProperty_def outcomeClass_distrib
           cong: if_cong option.case_cong sum.case_cong)

lemma objectProperty_full:
  "outcomeClass (objectProperty p t f) = outcomeClass (objectProperty p t f')"
  by (simp add: objectProperty_def Let_def outcomeClass_distrib
                regularProperty_full [of p _ t f f']
           cong: if_cong option.case_cong sum.case_cong)

lemma createChild_full:
  "outcomeClass (priv_createChildPointer p t f nd) =
   outcomeClass (priv_createChildPointer p t f' nd)"
  by (simp add: priv_createChildPointer_def Let_def outcomeClass_distrib
                objectProperty_full [of p t f f']
           cong: if_cong option.case_cong sum.case_cong)

lemma outcomeClass_Inr: "outcomeClass r = Inr q \<longleftrightarrow> r = Inr q"
  by (auto simp: outcomeClass_def split: sum.splits)

lemma createChild_noDash:
  "priv_createChildPointer p t f nd = Inr q \<Longrightarrow> priv_createChildPointer p t f False = Inr q"
  unfolding priv_createChildPointer_def Let_def
  by (auto split: if_splits sum.splits option.splits)

lemma createChild_relax:
  assumes "priv_createChildPointer p t f nd = Inr q"
  shows "priv_createChildPointer p t f' False = Inr q"
proof -
  have "priv_createChildPointer p t f False = Inr q"
    using assms by (rule createChild_noDash)
  then have "outcomeClass (priv_createChildPointer p t f' False) = Inr q"
    using createChild_full [of p t f' False f] by (simp add: outcomeClass_Inr)
  then show ?thesis by (simp add: outcomeClass_Inr)
qed

lemma createChildren_parseTokens:
  "createChildren p steps = Inr q \<Longrightarrow>
   parseTokens p (map (\<lambda>s. escapeToken (fst s)) steps) full False = Inr q"
proof (induction steps arbitrary: p)
  case Nil
  then show ?case by simp
next
  case (Cons s steps)
  obtain t f nd where s: "s = (t, f, nd)" by (cases s) auto
  from Cons.prems s obtain r where r: "priv_createChildPointer p t f nd = Inr r"
    and rest: "createChildren r steps = Inr q"
    by (auto split: sum.splits)
  from r have "priv_createChildPointer p t full False = Inr r" by (rule createChild_relax)
  with Cons.IH [OF rest] s show ?case by (simp add: unescape_escape)
qed

lemma createChildren_string:
  "createChildren p steps = Inr q \<Longrightarrow>
   pointerString q =
     pointerString p @ concat (map (\<lambda>x. CHR ''/'' # x) (map (\<lambda>s. escapeToken (fst s)) steps))"
proof (induction steps arbitrary: p)
  case Nil
  then show ?case by simp
next
  case (Cons s steps)
  obtain t f nd where s: "s = (t, f, nd)" by (cases s) auto
  from Cons.prems s obtain r where r: "priv_createChildPointer p t f nd = Inr r"
    and rest: "createChildren r steps = Inr q"
    by (auto split: sum.splits)
  from createChild_Inr [OF r] Cons.IH [OF rest] s show ?case by simp
qed

lemma parseTokens_append:
  "parseTokens p (ts @ us) f nd =
     (case parseTokens p ts f nd of Inl e \<Rightarrow> Inl e | Inr q \<Rightarrow> parseTokens q us f nd)"
  by (induction ts arbitrary: p) (auto split: sum.splits)

lemma parseTokens_string:
  "parseTokens p ts f nd = Inr q \<Longrightarrow>
   pointerString q =
     pointerString p @ concat (map (\<lambda>t. CHR ''/'' # escapeToken (unescapeToken t)) ts)"
proof (induction ts arbitrary: p)
  case Nil
  then show ?case by simp
next
  case (Cons t ts)
  from Cons.prems obtain r where r: "priv_createChildPointer p (unescapeToken t) f nd = Inr r"
    and rest: "parseTokens r ts f nd = Inr q"
    by (auto split: sum.splits)
  from createChild_Inr [OF r] Cons.IH [OF rest] show ?case by simp
qed

lemma pointerString_root: "pointerString (rootPointer c) = []"
  by (simp add: rootPointer_def newPointer_def)

lemma parsed_items:
  "parsed orderSchema ''/items'' =
     newPointer (Some (rootPointer orderSchema)) ''items'' (Some itemsDesc) ''items'' False
       IndexUndefined (Some itemProperties)"
  by code_simp

subsection \<open>Array index tokens\<close>

text \<open>
  Claim C7.  At a node whose property is an array and that is not yet an element node,
  \<^verbatim>\<open>parse\<close> and \<^verbatim>\<open>createChildPointer\<close> accept a token exactly when it is the dash
  (refused with a syntax error in dash-disallowed mode, and any token that follows the
  dash is refused with a syntax error) or a base-10 non-negative integer without
  leading zeros; every other token is refused with a syntax error.
\<close>

theorem array_index_token:
  assumes "\<not> isRoot p" and "propDesc p = Some d" and "isArray d"
    and "\<not> collectionElement p"
  shows
    "priv_createChildPointer p t full noDash =
       (if t = ''-'' then
          (if noDash
           then Inl (X2SyntaxError full
                       '': dash not allowed for an array index in this pointer.'')
           else Inr (newPointer (Some p) ''-'' (Some d) (propPath p) True
                       (IndexString ''-'') (childrenContainer p)))
        else if decimalNoLeadingZeros t then
          Inr (newPointer (Some p) t (Some d) (propPath p) True
                 (IndexNumber (Number t)) (childrenContainer p))
        else Inl (X2SyntaxError full '': invalid array index.''))
     \<and> createChildPointer p t =
       (if t = ''-'' then
          Inr (newPointer (Some p) ''-'' (Some d) (propPath p) True
                 (IndexString ''-'') (childrenContainer p))
        else if decimalNoLeadingZeros t then
          Inr (newPointer (Some p) t (Some d) (propPath p) True
                 (IndexNumber (Number t)) (childrenContainer p))
        else Inl (X2SyntaxError (pointerString p @ ''/'' @ t) '': invalid array index.''))
     \<and> priv_createChildPointer
         (newPointer (Some p) ''-'' (Some d) (propPath p) True (IndexString ''-'')
            (childrenContainer p))
         t' full' noDash' =
       Inl (X2SyntaxError full' '': unexpected dash for an array index.'')
     \<and> parseTokens p (''-'' # t' # ts) full False =
       Inl (X2SyntaxError full '': unexpected dash for an array index.'')"
proof -
  have step: "\<And>f nd. priv_createChildPointer p t f nd =
       (if t = ''-'' then
          (if nd
           then Inl (X2SyntaxError f
                       '': dash not allowed for an array index in this pointer.'')
           else Inr (newPointer (Some p) ''-'' (Some d) (propPath p) True
                       (IndexString ''-'') (childrenContainer p)))
        else if decimalNoLeadingZeros t then
          Inr (newPointer (Some p) t (Some d) (propPath p) True
                 (IndexNumber (Number t)) (childrenContainer p))
        else Inl (X2SyntaxError f '': invalid array index.''))"
    using assms
    by (simp add: priv_createChildPointer_def Let_def isArrayIndexToken_decimal)
  have dash: "\<And>u f nd. priv_createChildPointer
         (newPointer (Some p) ''-'' (Some d) (propPath p) True (IndexString ''-'')
            (childrenContainer p)) u f nd =
       Inl (X2SyntaxError f '': unexpected dash for an array index.'')"
    using assms(3)
    by (simp add: priv_createChildPointer_def newPointer_def isRoot_def)
  have first: "priv_createChildPointer p ''-'' full False =
      Inr (newPointer (Some p) ''-'' (Some d) (propPath p) True (IndexString ''-'')
            (childrenContainer p))"
    using assms by (simp add: priv_createChildPointer_def Let_def)
  have toks: "parseTokens p (''-'' # t' # ts) full False =
       Inl (X2SyntaxError full '': unexpected dash for an array index.'')"
    using first dash by simp
  show ?thesis
    using step [of full noDash] step [of "pointerString p @ ''/'' @ t" False] dash toks
    by (simp add: createChildPointer_def)
qed

text \<open>
  The theorem at the node \<^verbatim>\<open>/items\<close> of the example schema, with two runs of
  \<^verbatim>\<open>parse\<close> through the same node.
\<close>

theorem array_index_token_witness:
  "createChildPointer (parsed orderSchema ''/items'') ''12'' =
     Inr (newPointer (Some (parsed orderSchema ''/items'')) ''12'' (Some itemsDesc) ''items''
            True (IndexNumber 12) (Some itemProperties))
   \<and> createChildPointer (parsed orderSchema ''/items'') ''012'' =
     Inl (X2SyntaxError ''/items/012'' '': invalid array index.'')
   \<and> parse orderSchema ''/items/-'' True =
     Inl (X2SyntaxError ''/items/-''
            '': dash not allowed for an array index in this pointer.'')
   \<and> parse orderSchema ''/items/-/quantity'' False =
     Inl (X2SyntaxError ''/items/-/quantity'' '': unexpected dash for an array index.'')"
proof -
  let ?p = "parsed orderSchema ''/items''"
  have p: "\<not> isRoot ?p" "propDesc ?p = Some itemsDesc" "isArray itemsDesc"
    "\<not> collectionElement ?p" "propPath ?p = ''items''"
    "childrenContainer ?p = Some itemProperties" "pointerString ?p = ''/items''"
    by (simp_all add: parsed_items newPointer_def isRoot_def itemsDesc_def
          rootPointer_def)
  have d: "decimalNoLeadingZeros ''12''" "\<not> decimalNoLeadingZeros ''012''" "Number ''12'' = 12"
    by (simp_all add: decimalNoLeadingZeros_def isDigit_def Number_def digitValue_def)
  have a: "createChildPointer ?p ''12'' =
     Inr (newPointer (Some ?p) ''12'' (Some itemsDesc) ''items''
            True (IndexNumber 12) (Some itemProperties))"
    using array_index_token [OF p(1-4), of "''12''"] p d by simp
  have b: "createChildPointer ?p ''012'' =
     Inl (X2SyntaxError ''/items/012'' '': invalid array index.'')"
    using array_index_token [OF p(1-4), of "''012''"] p d by simp
  have c: "parse orderSchema ''/items/-'' True =
     Inl (X2SyntaxError ''/items/-''
            '': dash not allowed for an array index in this pointer.'')"
    by code_simp
  have e: "parse orderSchema ''/items/-/quantity'' False =
     Inl (X2SyntaxError ''/items/-/quantity'' '': unexpected dash for an array index.'')"
    by code_simp
  from a b c e show ?thesis by simp
qed

subsection \<open>Round trip through the pointer string\<close>

text \<open>
  Claim C4.  For every valid pointer string, that is one in which every tilde is
  followed by \<^verbatim>\<open>0\<close> or \<^verbatim>\<open>1\<close> as RFC 6901 requires, that \<^verbatim>\<open>parse\<close> accepts
  against a schema, the string of the parsed pointer is the string that was parsed:
  unescaping and escaping are inverse to each other on every token of such a string.
\<close>

theorem parse_toString_roundtrip:
  assumes "wellEscaped s" and "parse c s noDash = Inr q"
  shows "toString q = s"
proof (cases s)
  case Nil
  with assms(2) have "q = rootPointer c" by (simp add: parse_def)
  with Nil show ?thesis
    by (simp add: toString_def pointerString_root)
next
  case (Cons a r)
  with assms(2) have a: "a = CHR ''/''"
    by (auto simp: parse_def split: if_splits)
  obtain ts where ts: "split CHR ''/'' s = [] # ts"
    using Cons a split_nonempty [of "CHR ''/''" r] by (cases "split CHR ''/'' r") auto
  have s: "s = concat (map (\<lambda>x. CHR ''/'' # x) ts)"
    using split_join [OF ts] by simp
  have pt: "parseTokens (rootPointer c) ts s noDash = Inr q"
    using assms(2) Cons a ts by (simp add: parse_def)
  have "\<forall>t \<in> set ts. escapeToken (unescapeToken t) = t"
  proof
    fix t assume "t \<in> set ts"
    then have "t \<in> set (split CHR ''/'' s)" using ts by simp
    then show "escapeToken (unescapeToken t) = t"
      using split_wellEscaped [OF assms(1)] split_no_sep escape_unescape by blast
  qed
  then have "map (\<lambda>t. CHR ''/'' # escapeToken (unescapeToken t)) ts = map (\<lambda>x. CHR ''/'' # x) ts"
    by simp
  with parseTokens_string [OF pt] s show ?thesis
    by (simp add: toString_def pointerString_root)
qed

text \<open>The round trip of a map key that holds both escapes.\<close>

theorem parse_toString_roundtrip_witness:
  "wellEscaped ''/tags/a~1b~0'' \<and>
   map_sum id toString (parse orderSchema ''/tags/a~1b~0'' False) = Inr ''/tags/a~1b~0''"
proof -
  have w: "wellEscaped ''/tags/a~1b~0''" by simp
  have q: "parse orderSchema ''/tags/a~1b~0'' False =
      Inr (parsed orderSchema ''/tags/a~1b~0'')"
    by code_simp
  from parse_toString_roundtrip [OF w q] q w show ?thesis by simp
qed

subsection \<open>Extending a pointer by one token\<close>

text \<open>
  Claim C5.  For a pointer \<open>P\<close> built from the root of a schema and any token \<open>t\<close>,
  \<^verbatim>\<open>P.createChildPointer(t)\<close> and \<^verbatim>\<open>parse(schema, P.toString() + "/" + escape(t))\<close>
  have the same outcome: the same pointer (string, descriptor, path, element flag and
  index) when the extension is valid, and otherwise an error of the same class, the
  two messages differing only in the pointer string they quote.
\<close>

theorem createChildPointer_refines_parse:
  assumes "createChildren (rootPointer c) steps = Inr P"
  shows "outcomeClass (createChildPointer P t) =
         outcomeClass (parse c (toString P @ ''/'' @ escapeToken t) False)"
proof -
  let ?toks = "map (\<lambda>s. escapeToken (fst s)) steps"
  let ?s = "toString P @ ''/'' @ escapeToken t"
  have str: "toString P = concat (map (\<lambda>x. CHR ''/'' # x) ?toks)"
    using createChildren_string [OF assms] by (simp add: toString_def pointerString_root)
  have s: "?s = [] @ concat (map (\<lambda>x. CHR ''/'' # x) (?toks @ [escapeToken t]))"
    using str by simp
  have "split CHR ''/'' ([] @ concat (map (\<lambda>x. CHR ''/'' # x) (?toks @ [escapeToken t])))
        = [] # (?toks @ [escapeToken t])"
    by (rule split_tokens) (auto simp: escape_no_slash)
  with s have sp: "split CHR ''/'' ?s = [] # (?toks @ [escapeToken t])" by simp
  have ne: "?s \<noteq> []" "take 1 ?s = ''/''"
    using str by (cases steps; simp)+
  have "parse c ?s False = parseTokens (rootPointer c) (?toks @ [escapeToken t]) ?s False"
    using ne sp by (simp add: parse_def)
  also have "\<dots> = priv_createChildPointer P t ?s False"
    using createChildren_parseTokens [OF assms, of ?s]
    by (simp add: parseTokens_append unescape_escape split: sum.splits)
  finally show ?thesis
    using createChild_full [of P t "pointerString P @ ''/'' @ t" False ?s]
    by (simp add: createChildPointer_def)
qed

text \<open>A valid and an invalid extension of \<^verbatim>\<open>/items\<close>.\<close>

theorem createChildPointer_refines_parse_witness:
  "createChildren (rootPointer orderSchema) [(''items'', ''/items/7'', True)] =
     Inr (parsed orderSchema ''/items'')
   \<and> outcomeClass (createChildPointer (parsed orderSchema ''/items'') ''7'') =
     outcomeClass (parse orderSchema ''/items/7'' False)
   \<and> outcomeClass (createChildPointer (parsed orderSchema ''/items'') ''x'') =
     outcomeClass (parse orderSchema ''/items/x'' False)"
proof -
  have c: "createChildren (rootPointer orderSchema) [(''items'', ''/items/7'', True)] =
     Inr (parsed orderSchema ''/items'')"
    by code_simp
  have s: "toString (parsed orderSchema ''/items'') = ''/items''"
    by code_simp
  from createChildPointer_refines_parse [OF c, of "''7''"]
       createChildPointer_refines_parse [OF c, of "''x''"] c s
  show ?thesis by simp
qed

section \<open>Properties of the navigator and the mutator\<close>

subsection \<open>The walk along the chain\<close>

lemma pointerChain_unfold:
  "pointerChain P = P # (case parent P of None \<Rightarrow> [] | Some q \<Rightarrow> pointerChain q)"
  by (cases P) simp

lemma tl_pointerChain:
  "tl (pointerChain P) = (case parent P of None \<Rightarrow> [] | Some q \<Rightarrow> pointerChain q)"
  by (subst pointerChain_unfold) simp

lemma reduceRight_chain:
  "reduceRight f (pointerChain P) record s =
     (case walkToLeaf f P record s of
        (Inl e, s') \<Rightarrow> (Inl e, s')
      | (Inr obj, s') \<Rightarrow> f obj P 0 s')"
  by (subst pointerChain_unfold) (simp add: reduceRight_def walkToLeaf_def tl_pointerChain)

lemma walkToLeaf_parent:
  "parent P = Some Q \<Longrightarrow>
   walkToLeaf f P record s =
     (case reduceRightFrom 2 f (tl (pointerChain Q)) record s of
        (Inl e, s') \<Rightarrow> (Inl e, s')
      | (Inr obj, s') \<Rightarrow> f obj Q 1 s')"
  unfolding walkToLeaf_def One_nat_def numeral_2_eq_2
  by (simp add: tl_pointerChain, subst pointerChain_unfold) (simp add: tl_pointerChain)

lemma reduceRightFrom_cong:
  "(\<And>obj p i s. k \<le> i \<Longrightarrow> f obj p i s = g obj p i s) \<Longrightarrow>
   reduceRightFrom k f ps acc s = reduceRightFrom k g ps acc s"
proof (induction ps arbitrary: k)
  case Nil
  then show ?case by simp
next
  case (Cons p ps)
  have "reduceRightFrom (Suc k) f ps acc s = reduceRightFrom (Suc k) g ps acc s"
    by (rule Cons.IH) (simp add: Cons.prems)
  then show ?case by (simp add: Cons.prems split: prod.splits sum.splits)
qed

lemma reduceRightFrom_invariant:
  assumes step: "\<And>obj p i s. R s (snd (f obj p i s))"
    and refl: "\<And>s. R s s"
    and trans: "\<And>a b c. R a b \<Longrightarrow> R b c \<Longrightarrow> R a c"
  shows "R s (snd (reduceRightFrom k f ps acc s))"
proof (induction ps arbitrary: k)
  case Nil
  then show ?case by (simp add: refl)
next
  case (Cons p ps)
  obtain r s1 where r: "reduceRightFrom (Suc k) f ps acc s = (r, s1)"
    by (cases "reduceRightFrom (Suc k) f ps acc s")
  with Cons.IH [of "Suc k"] have s1: "R s s1" by simp
  show ?case
  proof (cases r)
    case (Inl e)
    with r s1 show ?thesis by simp
  next
    case (Inr obj)
    with r have "reduceRightFrom k f (p # ps) acc s = f obj p k s1" by simp
    with trans [OF s1 step [of s1 obj p k]] show ?thesis by simp
  qed
qed

subsection \<open>Heap primitives\<close>

lemma emptyContainer_read:
  "emptyContainer ob obj nm False h = (Inr (JRef (length h)), h @ [ob])"
  by (simp add: emptyContainer_def alloc_def)

lemma js_get_same:
  "length h = length h' \<Longrightarrow> h ! a = h' ! a \<Longrightarrow> js_get h (JRef a) k = js_get h' (JRef a) k"
  by (simp add: js_get_def)

lemma js_get_Inr_ref: "js_get h (JRef a) k = Inr v \<Longrightarrow> a < length h"
  by (simp add: js_get_def split: if_splits)

lemma js_set_frame:
  "js_set h obj k v = Inr h' \<Longrightarrow>
   \<exists>a ob. obj = JRef a \<and> a < length h \<and> h' = h[a := ob] \<and>
     (case h ! a of JArray xs \<Rightarrow> (\<exists>ys. ob = JArray ys) | JObject kvs \<Rightarrow> (\<exists>kvs'. ob = JObject kvs'))"
  by (auto simp: js_set_def split: jsval.splits if_splits jsobj.splits option.splits)





lemma emptyContainer_write:
  assumes "emptyContainer ob obj nm True h = (Inr c, hs)" and "js_get h obj k0 = Inr v0"
  shows "c = JRef (length h) \<and> length hs = Suc (length h) \<and> hs ! length h = ob \<and>
         (\<exists>a ob'. obj = JRef a \<and> a < length h \<and> hs = (h @ [ob])[a := ob'])"
proof -
  from assms(1) have c: "c = JRef (length h)"
    and set: "js_set (h @ [ob]) obj (IndexString nm) (JRef (length h)) = Inr hs"
    by (auto simp: emptyContainer_def alloc_def split: sum.splits)
  from js_set_frame [OF set] obtain a ob' where a: "obj = JRef a"
    and hs: "hs = (h @ [ob])[a := ob']"
    by auto
  from assms(2) a have lt: "a < length h" by (auto dest: js_get_Inr_ref)
  from c a hs lt show ?thesis by (auto simp: nth_list_update)
qed

lemma getImmediateValue_forSet:
  "priv_getImmediateValue p obj i fs h = priv_getImmediateValue p obj i False h \<or>
   (\<exists>d v0 ob. js_get h obj (IndexString (name d)) = Inr v0 \<and>
      priv_getImmediateValue p obj i fs h = emptyContainer ob obj (name d) fs h \<and>
      priv_getImmediateValue p obj i False h = emptyContainer ob obj (name d) False h)"
  by (auto simp: priv_getImmediateValue_def Let_def split: option.splits sum.splits)

subsection \<open>One node of the chain\<close>

lemma getImmediateValue_not_parent:
  "i \<noteq> 1 \<Longrightarrow>
   priv_getImmediateValue p obj i forSet h = priv_getImmediateValue p obj i False h \<and>
   snd (priv_getImmediateValue p obj i forSet h) = h"
  by (auto simp: priv_getImmediateValue_def Let_def split: option.splits sum.splits)

lemma getImmediateValue_read_prefix:
  "prefix h (snd (priv_getImmediateValue p obj i False h))"
  by (auto simp: priv_getImmediateValue_def Let_def emptyContainer_read
           split: option.splits sum.splits)

lemma getImmediateValue_set_read:
  assumes "priv_getImmediateValue p obj i True h = (Inr c, hs)"
  shows "\<exists>hg. priv_getImmediateValue p obj i False h = (Inr c, hg) \<and>
              (\<forall>k. js_get hs c k = js_get hg c k)"
proof (cases "i = 1")
  case False
  from getImmediateValue_not_parent [OF False, of p obj True h, THEN conjunct1] assms
  have "priv_getImmediateValue p obj i False h = (Inr c, hs)" by metis
  then show ?thesis by blast
next
  case True
  from getImmediateValue_forSet [of p obj i True h]
  show ?thesis
  proof
    assume "priv_getImmediateValue p obj i True h = priv_getImmediateValue p obj i False h"
    with assms have "priv_getImmediateValue p obj i False h = (Inr c, hs)" by simp
    then show ?thesis by blast
  next
    assume "\<exists>d v0 ob. js_get h obj (IndexString (name d)) = Inr v0 \<and>
      priv_getImmediateValue p obj i True h = emptyContainer ob obj (name d) True h \<and>
      priv_getImmediateValue p obj i False h = emptyContainer ob obj (name d) False h"
    then obtain d v0 ob where g: "js_get h obj (IndexString (name d)) = Inr v0"
      and w: "priv_getImmediateValue p obj i True h = emptyContainer ob obj (name d) True h"
      and r: "priv_getImmediateValue p obj i False h = emptyContainer ob obj (name d) False h"
      by blast
    from w assms have "emptyContainer ob obj (name d) True h = (Inr c, hs)" by simp
    from emptyContainer_write [OF this g]
    have c: "c = JRef (length h)" and len: "length hs = Suc (length h)"
      and ob: "hs ! length h = ob" by auto
    have "\<forall>k. js_get hs c k = js_get (h @ [ob]) c k"
      using c len ob by (auto intro!: js_get_same)
    with r c show ?thesis by (simp add: emptyContainer_read)
  qed
qed

lemma getImmediateValue_leaf:
  assumes "\<And>k. js_get hs c k = js_get hg c k"
  shows "fst (priv_getImmediateValue P c 0 fs hs) = fst (priv_getImmediateValue P c 0 fs' hg)"
  using assms
  by (auto simp: priv_getImmediateValue_def Let_def split: option.splits sum.splits)

lemma setValueStep_above_leaf:
  "i \<noteq> 0 \<Longrightarrow> setValueStep v ins obj p i h = priv_getImmediateValue p obj i True h"
  by (simp add: setValueStep_def split: prod.splits sum.splits)

lemma removeValueStep_above_leaf:
  "i \<noteq> 0 \<Longrightarrow> removeValueStep obj p i h = getValueStep obj p i h"
  by (simp add: removeValueStep_def getValueStep_def split: prod.splits sum.splits)

lemma setValueStep_high:
  "2 \<le> i \<Longrightarrow> setValueStep v ins obj p i h = getValueStep obj p i h"
  using getImmediateValue_not_parent [of i p obj True h]
  by (simp add: setValueStep_above_leaf getValueStep_def)

lemma getValueStep_high:
  "2 \<le> i \<Longrightarrow> snd (getValueStep obj p i h) = h"
  using getImmediateValue_not_parent [of i p obj False h]
  by (simp add: getValueStep_def)

lemma walk_high_unchanged:
  "2 \<le> k \<Longrightarrow> snd (reduceRightFrom k getValueStep ps acc h) = h"
proof (induction ps arbitrary: k)
  case Nil
  then show ?case by simp
next
  case (Cons p ps)
  from Cons.IH [of "Suc k"] Cons.prems
  have "snd (reduceRightFrom (Suc k) getValueStep ps acc h) = h" by simp
  with getValueStep_high [OF Cons.prems] show ?case
    by (auto split: prod.splits sum.splits)
qed

lemma walk_set_high:
  "2 \<le> k \<Longrightarrow>
   reduceRightFrom k (setValueStep v ins) ps acc h = reduceRightFrom k getValueStep ps acc h"
  by (rule reduceRightFrom_cong) (simp add: setValueStep_high)

lemma walk_remove:
  "1 \<le> k \<Longrightarrow>
   reduceRightFrom k removeValueStep ps acc h = reduceRightFrom k getValueStep ps acc h"
  by (rule reduceRightFrom_cong) (simp add: removeValueStep_above_leaf)

lemma walk_set_read:
  assumes "1 \<le> k" and "reduceRightFrom k (setValueStep v ins) ps acc h = (Inr c, hs)"
  shows "\<exists>hg. reduceRightFrom k getValueStep ps acc h = (Inr c, hg) \<and>
              (\<forall>key. js_get hs c key = js_get hg c key)"
proof (cases ps)
  case Nil
  with assms show ?thesis by simp
next
  case (Cons p ps')
  have high: "reduceRightFrom (Suc k) (setValueStep v ins) ps' acc h =
              reduceRightFrom (Suc k) getValueStep ps' acc h"
    using assms(1) by (intro walk_set_high) simp
  from assms(2) Cons obtain obj h1
    where above: "reduceRightFrom (Suc k) (setValueStep v ins) ps' acc h = (Inr obj, h1)"
      and here: "setValueStep v ins obj p k h1 = (Inr c, hs)"
    by (auto split: prod.splits sum.splits)
  from here assms(1) have "priv_getImmediateValue p obj k True h1 = (Inr c, hs)"
    by (simp add: setValueStep_above_leaf)
  from getImmediateValue_set_read [OF this] obtain hg
    where "priv_getImmediateValue p obj k False h1 = (Inr c, hg)"
      and "\<forall>key. js_get hs c key = js_get hg c key"
    by blast
  with above high Cons show ?thesis by (simp add: getValueStep_def)
qed

lemma setValue_previous:
  assumes "priv_setValue P record v ins h = (Inr r, h')"
  shows "fst (getValue P record h) = Inr r"
proof -
  from assms have run: "reduceRight (setValueStep v ins) (pointerChain P) record h = (Inr r, h')"
    by (simp add: priv_setValue_def split: if_splits)
  then obtain obj hs where walk: "walkToLeaf (setValueStep v ins) P record h = (Inr obj, hs)"
    and leaf: "setValueStep v ins obj P 0 hs = (Inr r, h')"
    by (auto simp: reduceRight_chain split: prod.splits sum.splits)
  from walk_set_read [OF _ walk [unfolded walkToLeaf_def]] obtain hg
    where walkg: "walkToLeaf getValueStep P record h = (Inr obj, hg)"
      and same: "\<And>key. js_get hs obj key = js_get hg obj key"
    by (auto simp: walkToLeaf_def)
  from leaf have "fst (priv_getImmediateValue P obj 0 True hs) = Inr r"
    by (auto simp: setValueStep_def split: prod.splits sum.splits)
  with getImmediateValue_leaf [of hs obj hg P True False, OF same]
  have "fst (priv_getImmediateValue P obj 0 False hg) = Inr r" by simp
  with walkg show ?thesis
    by (simp add: getValue_def reduceRight_chain getValueStep_def)
qed

lemma removeValue_previous:
  assumes "removeValue P record h = (Inr r, h')"
  shows "fst (getValue P record h) = Inr r"
proof -
  from assms have run: "reduceRight removeValueStep (pointerChain P) record h = (Inr r, h')"
    by (simp add: removeValue_def split: if_splits)
  then obtain obj hs where walk: "walkToLeaf removeValueStep P record h = (Inr obj, hs)"
    and leaf: "removeValueStep obj P 0 hs = (Inr r, h')"
    by (auto simp: reduceRight_chain split: prod.splits sum.splits)
  from walk have walkg: "walkToLeaf getValueStep P record h = (Inr obj, hs)"
    by (simp add: walkToLeaf_def walk_remove)
  from leaf have "fst (priv_getImmediateValue P obj 0 False hs) = Inr r"
    by (auto simp: removeValueStep_def split: prod.splits sum.splits)
  with walkg show ?thesis
    by (simp add: getValue_def reduceRight_chain getValueStep_def)
qed

lemma tracedStep_prefix:
  "prefix (fst s) (fst (snd (tracedStep traceFunc obj p i s)))"
  using getImmediateValue_read_prefix [of "fst s" p obj i]
  by (auto simp: tracedStep_def split: prod.splits sum.splits)

subsection \<open>The value returned by a write\<close>

text \<open>
  Claim C3.  Whenever \<^verbatim>\<open>addValue\<close>, \<^verbatim>\<open>replaceValue\<close> or \<^verbatim>\<open>removeValue\<close>
  completes without error, it returns the value that \<^verbatim>\<open>getValue\<close> returns for the
  same pointer on the same record in the state before the call.
\<close>

theorem write_returns_previous_value:
  "(addValue P record v h = (Inr r, h') \<longrightarrow> fst (getValue P record h) = Inr r) \<and>
   (replaceValue P record v h = (Inr r, h') \<longrightarrow> fst (getValue P record h) = Inr r) \<and>
   (removeValue P record h = (Inr r, h') \<longrightarrow> fst (getValue P record h) = Inr r)"
  using setValue_previous [of P "record" v True h r h']
        setValue_previous [of P "record" v False h r h']
        removeValue_previous [of P "record" h r h']
  by (simp add: addValue_def replaceValue_def)

text \<open>The three operations on \<^verbatim>\<open>/items/0/quantity\<close> of the example record.\<close>

theorem write_returns_previous_value_witness:
  "addValue (parsed orderSchema ''/items/0/quantity'') (JRef 0) (JNum 5) orderHeap =
     (Inr (JNum 2),
      [JObject [(''items'', JRef 1)], JArray [JRef 2], JObject [(''quantity'', JNum 5)]])
   \<and> replaceValue (parsed orderSchema ''/items/0/quantity'') (JRef 0) (JNum 5) orderHeap =
     (Inr (JNum 2),
      [JObject [(''items'', JRef 1)], JArray [JRef 2], JObject [(''quantity'', JNum 5)]])
   \<and> removeValue (parsed orderSchema ''/items/0/quantity'') (JRef 0) orderHeap =
     (Inr (JNum 2), [JObject [(''items'', JRef 1)], JArray [JRef 2], JObject []])
   \<and> fst (getValue (parsed orderSchema ''/items/0/quantity'') (JRef 0) orderHeap) =
     Inr (JNum 2)"
proof -
  let ?P = "parsed orderSchema ''/items/0/quantity''"
  have a: "addValue ?P (JRef 0) (JNum 5) orderHeap =
     (Inr (JNum 2),
      [JObject [(''items'', JRef 1)], JArray [JRef 2], JObject [(''quantity'', JNum 5)]])"
    by code_simp
  have b: "replaceValue ?P (JRef 0) (JNum 5) orderHeap =
     (Inr (JNum 2),
      [JObject [(''items'', JRef 1)], JArray [JRef 2], JObject [(''quantity'', JNum 5)]])"
    by code_simp
  have c: "removeValue ?P (JRef 0) orderHeap =
     (Inr (JNum 2), [JObject [(''items'', JRef 1)], JArray [JRef 2], JObject []])"
    by code_simp
  from write_returns_previous_value [of ?P "JRef 0" "JNum 5" orderHeap "JNum 2"
      "[JObject [(''items'', JRef 1)], JArray [JRef 2], JObject [(''quantity'', JNum 5)]]"] a
  have "fst (getValue ?P (JRef 0) orderHeap) = Inr (JNum 2)" by simp
  with a b c show ?thesis by simp
qed

subsection \<open>Reading leaves the record alone\<close>

text \<open>
  Claim C9.  \<^verbatim>\<open>getValue\<close>, with or without a trace callback, never modifies the
  record: the heap after the call starts with the heap before the call, object by
  object; the only addition can be an empty container that the walk substituted for a
  missing one, which no object of the record refers to.
\<close>

theorem getValue_never_modifies:
  "prefix h (snd (getValue P record h)) \<and>
   prefix h (fst (snd (getValueTraced P record traceFunc (h, t))))"
proof
  show "prefix h (snd (getValue P record h))"
    unfolding getValue_def reduceRight_def
    by (rule reduceRightFrom_invariant [where R = prefix])
       (auto simp: getValueStep_def getImmediateValue_read_prefix)
next
  have "prefix (fst (h, t))
          (fst (snd (reduceRightFrom 0 (tracedStep traceFunc) (pointerChain P) record (h, t))))"
    by (rule reduceRightFrom_invariant
          [where R = "\<lambda>s s'. prefix (fst s) (fst s')" and f = "tracedStep traceFunc"])
       (auto simp: tracedStep_prefix)
  then show "prefix h (fst (snd (getValueTraced P record traceFunc (h, t))))"
    by (simp add: getValueTraced_def reduceRight_def)
qed

text \<open>
  A read through the missing array \<^verbatim>\<open>items\<close> of the empty record, with a callback
  that logs its calls.
\<close>

theorem getValue_never_modifies_witness:
  "prefix [JObject []] (snd (getValue (parsed orderSchema ''/items/0'') (JRef 0) [JObject []]))
   \<and> prefix [JObject []]
       (fst (snd (getValueTraced (parsed orderSchema ''/items/0'') (JRef 0)
                    (\<lambda>p val i t. (pointerString p, val, i) # t) ([JObject []], []))))"
  using getValue_never_modifies [of "[JObject []]" "parsed orderSchema ''/items/0''" "JRef 0"
          "\<lambda>p val i t. (pointerString p, val, i) # t" "[]"]
  by simp

subsection \<open>Missing values on the way to the leaf\<close>

lemma js_get_object:
  "a < length h \<Longrightarrow> h ! a = JObject kvs \<Longrightarrow>
   js_get h (JRef a) (IndexString nm) =
     Inr (case map_of kvs nm of
            Some v \<Rightarrow> v
          | None \<Rightarrow>
              (case objectPrototypeMember nm of Some member \<Rightarrow> member | None \<Rightarrow> JUndefined))"
  by (simp add: js_get_def keyString_def split: option.splits)

lemma js_get_array:
  "a < length h \<Longrightarrow> h ! a = JArray xs \<Longrightarrow>
   js_get h (JRef a) (IndexNumber n) = Inr (if n < length xs then xs ! n else JUndefined)"
  by (simp add: js_get_def toArrayIndex_def)


lemma getImmediateValue_missing:
  assumes "\<not> isRoot p" and "propDesc p = Some d" and "\<not> collectionElement p"
    and "js_get h obj (IndexString (name d)) = Inr v0" and "v0 = JUndefined \<or> v0 = JNull"
    and "0 < i"
  shows "priv_getImmediateValue p obj i forSet h =
     (if 1 < i then (Inl (noValue p), h)
      else if isArray d then emptyContainer (JArray []) obj (name d) forSet h
      else if isMap d then emptyContainer (JObject []) obj (name d) forSet h
      else (Inl (noValue p), h))"
  using assms by (auto simp: priv_getImmediateValue_def Let_def)


lemma parsed_tags:
  "parsed orderSchema ''/tags'' =
     newPointer (Some (rootPointer orderSchema)) ''tags'' (Some tagsDesc) ''tags'' False
       IndexUndefined None"
  by code_simp

lemma missing_read:
  assumes "a < length h" and "h ! a = JObject kvs"
    and "map_of kvs nm = None \<and> objectPrototypeMember nm = None \<or>
         map_of kvs nm = Some JNull \<or> map_of kvs nm = Some JUndefined"
  shows "\<exists>v0. js_get h (JRef a) (IndexString nm) = Inr v0 \<and> (v0 = JUndefined \<or> v0 = JNull)"
  using assms by (auto simp: js_get_object)


lemma walk_remove_unchanged:
  assumes "reduceRightFrom 2 removeValueStep ps acc h = (r, h1)"
  shows "h1 = h"
  using assms walk_high_unchanged [of 2 ps acc h] by (simp add: walk_remove)








lemma reduceRightFrom_append:
  "reduceRightFrom k f (xs @ ys) acc s =
     (case reduceRightFrom (k + length xs) f ys acc s of
        (Inl e, s') \<Rightarrow> (Inl e, s')
      | (Inr obj, s') \<Rightarrow> reduceRightFrom k f xs obj s')"
proof (induction xs arbitrary: k)
  case Nil
  then show ?case by (simp split: prod.splits sum.splits)
next
  case (Cons x xs)
  show ?case
    using Cons.IH [of "Suc k"] by (simp split: prod.splits sum.splits)
qed

lemma reduceRight_through_node:
  assumes chain: "pointerChain P = below @ pointerChain N"
    and walk: "reduceRightFrom (Suc (length below)) f (tl (pointerChain N)) record s =
                 (Inr obj, s1)"
  shows "reduceRight f (pointerChain P) record s =
     (case f obj N (length below) s1 of
        (Inl e, s') \<Rightarrow> (Inl e, s')
      | (Inr c, s') \<Rightarrow> reduceRightFrom 0 f below c s')"
proof -
  have n: "pointerChain N = N # tl (pointerChain N)"
    by (subst pointerChain_unfold) (simp add: tl_pointerChain)
  have "reduceRightFrom (length below) f (pointerChain N) record s = f obj N (length below) s1"
    by (subst n) (simp add: walk)
  then show ?thesis
    by (simp add: reduceRight_def chain reduceRightFrom_append)
qed

lemma chain_tags_k:
  "pointerChain (parsed orderSchema ''/tags/k'') =
     [parsed orderSchema ''/tags/k''] @ pointerChain (parsed orderSchema ''/tags'')"
  by code_simp

lemma chain_items_0_quantity:
  "pointerChain (parsed orderSchema ''/items/0/quantity'') =
     [parsed orderSchema ''/items/0/quantity'', parsed orderSchema ''/items/0''] @
     pointerChain (parsed orderSchema ''/items'')"
  by code_simp

text \<open>
  Claim C2 as stated fails: the substitution of an empty container happens only at the
  leaf's immediate parent.  At the node \<^verbatim>\<open>/items\<close> of \<^verbatim>\<open>/items/0/quantity\<close>, two
  steps above the leaf, a read of the empty record throws at once: the error names
  \<^verbatim>\<open>/items\<close>, and a trace callback has been called for the root only.
\<close>

theorem read_missing_container_counterexample:
  "getValueStep (JRef 0) (parsed orderSchema ''/items'') 2 [JObject []] =
     (Inl (X2DataError ''No property value at /items.''), [JObject []])
   \<and> getValueTraced (parsed orderSchema ''/items/0/quantity'') (JRef 0)
       (\<lambda>p val i t. t @ [(pointerString p, val, i)]) ([JObject []], []) =
     (Inl (X2DataError ''No property value at /items.''), [JObject []], [([], JRef 0, 3)])"
  by code_simp

text \<open>
  Claim C2, amended.  When the walk of \<^verbatim>\<open>getValue\<close> reaches a non-leaf node \<open>N\<close>
  that addresses an object property whose value is \<^verbatim>\<open>null\<close> or missing (the nodes
  above it have changed nothing): if \<open>N\<close> is the leaf's immediate parent, an empty
  array or map, by the declared kind, is substituted, allocated but stored nowhere,
  and the call continues with the leaf read from it, and a scalar property fails with
  a \<^verbatim>\<open>DataError\<close>; if \<open>N\<close> is further from the leaf, the call fails with a
  \<^verbatim>\<open>DataError\<close> at \<open>N\<close> whatever the declared kind.  In the statement
  \<open>below\<close> lists the nodes of the chain from the leaf up to \<open>N\<close>, \<open>N\<close> not
  included, so that its length is the position of \<open>N\<close> in the chain.
\<close>

theorem read_missing_container:
  assumes node: "\<not> isRoot N" "propDesc N = Some d" "\<not> collectionElement N"
    and chain: "pointerChain P = below @ pointerChain N" "below \<noteq> []"
    and walk: "reduceRightFrom (Suc (length below)) getValueStep (tl (pointerChain N)) record h =
                 (Inr obj, h1)"
    and missing: "js_get h1 obj (IndexString (name d)) = Inr v0" "v0 = JUndefined \<or> v0 = JNull"
  shows "h1 = h \<and>
     getValueStep obj N (length below) h =
       (if 1 < length below then (Inl (noValue N), h)
        else if isArray d then (Inr (JRef (length h)), h @ [JArray []])
        else if isMap d then (Inr (JRef (length h)), h @ [JObject []])
        else (Inl (noValue N), h)) \<and>
     getValue P record h =
       (if 1 < length below then (Inl (noValue N), h)
        else if isArray d then getValueStep (JRef (length h)) P 0 (h @ [JArray []])
        else if isMap d then getValueStep (JRef (length h)) P 0 (h @ [JObject []])
        else (Inl (noValue N), h))"
proof -
  have pos: "0 < length below" using chain(2) by simp
  have h1: "h1 = h"
    using walk walk_high_unchanged [of "Suc (length below)" "tl (pointerChain N)" "record" h] pos
    by simp
  have step: "getValueStep obj N (length below) h1 =
       (if 1 < length below then (Inl (noValue N), h1)
        else if isArray d then (Inr (JRef (length h1)), h1 @ [JArray []])
        else if isMap d then (Inr (JRef (length h1)), h1 @ [JObject []])
        else (Inl (noValue N), h1))"
    using getImmediateValue_missing [OF node missing pos, of False]
    by (simp add: getValueStep_def emptyContainer_read)
  have run: "getValue P record h =
     (case getValueStep obj N (length below) h1 of
        (Inl e, s') \<Rightarrow> (Inl e, s')
      | (Inr c, s') \<Rightarrow> reduceRightFrom 0 getValueStep below c s')"
    unfolding getValue_def by (rule reduceRight_through_node [OF chain(1) walk])
  have single: "length below = 1 \<Longrightarrow> below = [P]"
  proof -
    assume "length below = 1"
    then obtain b where b: "below = [b]" by (cases below) auto
    have "hd (pointerChain P) = P" by (subst pointerChain_unfold) simp
    with chain(1) b show "below = [P]" by simp
  qed
  have leaf: "\<not> 1 < length below \<Longrightarrow>
     reduceRightFrom 0 getValueStep below c s' = getValueStep c P 0 s'" for c s'
  proof -
    assume "\<not> 1 < length below"
    with pos have "length below = 1" by linarith
    from single [OF this] show ?thesis by simp
  qed
  show ?thesis
    using h1 step run leaf by (auto split: if_splits)
qed

text \<open>
  Reads of the empty record: \<^verbatim>\<open>/tags/k\<close> goes through the missing map one step
  above its leaf, \<^verbatim>\<open>/items/0/quantity\<close> stops at the missing array two steps above.
\<close>

theorem read_missing_container_witness:
  "getValue (parsed orderSchema ''/tags/k'') (JRef 0) [JObject []] =
     (Inr JUndefined, [JObject [], JObject []])
   \<and> getValue (parsed orderSchema ''/items/0/quantity'') (JRef 0) [JObject []] =
     (Inl (X2DataError ''No property value at /items.''), [JObject []])"
proof -
  let ?T = "parsed orderSchema ''/tags''" and ?I = "parsed orderSchema ''/items''"
  let ?K = "parsed orderSchema ''/tags/k''"
  have T: "\<not> isRoot ?T" "propDesc ?T = Some tagsDesc" "\<not> collectionElement ?T"
    by (simp_all add: parsed_tags newPointer_def isRoot_def)
  have I: "\<not> isRoot ?I" "propDesc ?I = Some itemsDesc" "\<not> collectionElement ?I"
    by (simp_all add: parsed_items newPointer_def isRoot_def)
  have d: "isMap tagsDesc" "\<not> isArray tagsDesc" "pointerString ?I = ''/items''"
    by (simp_all add: tagsDesc_def parsed_items newPointer_def rootPointer_def)
  have wT: "reduceRightFrom (Suc (length [?K])) getValueStep (tl (pointerChain ?T)) (JRef 0)
              [JObject []] = (Inr (JRef 0), [JObject []])"
    by code_simp
  have wI: "reduceRightFrom
              (Suc (length [parsed orderSchema ''/items/0/quantity'',
                           parsed orderSchema ''/items/0'']))
              getValueStep (tl (pointerChain ?I)) (JRef 0) [JObject []] =
            (Inr (JRef 0), [JObject []])"
    by code_simp
  have g: "js_get [JObject []] (JRef 0) (IndexString (name tagsDesc)) = Inr JUndefined"
    "js_get [JObject []] (JRef 0) (IndexString (name itemsDesc)) = Inr JUndefined"
    by (simp_all add: js_get_object objectPrototypeMember_def tagsDesc_def itemsDesc_def)
  have leaf: "getValueStep (JRef 1) ?K 0 [JObject [], JObject []] =
                (Inr JUndefined, [JObject [], JObject []])"
    by code_simp
  have a: "getValue ?K (JRef 0) [JObject []] = (Inr JUndefined, [JObject [], JObject []])"
    using read_missing_container [OF T chain_tags_k _ wT g(1)] d leaf by simp
  have b: "getValue (parsed orderSchema ''/items/0/quantity'') (JRef 0) [JObject []] =
     (Inl (X2DataError ''No property value at /items.''), [JObject []])"
    using read_missing_container [OF I chain_items_0_quantity _ wI g(2)] d
    by (simp add: noValue_def)
  from a b show ?thesis by simp
qed

subsection \<open>Writes through a missing container\<close>












subsection \<open>Removing from a missing map\<close>

text \<open>
  When the leaf of \<^verbatim>\<open>removeValue\<close> addresses a map element under a key that is not
  the name of a member of \<^verbatim>\<open>Object.prototype\<close>, and the map property is
  \<^verbatim>\<open>null\<close> or absent in its parent object, the call raises no error, returns
  \<^verbatim>\<open>undefined\<close> and leaves every object of the record as it was: the heap only
  gains the empty map that the deletion was applied to, stored nowhere.
\<close>

lemma removeValue_missing_map:
  assumes leaf: "propDesc P = Some d" "collectionElement P" "isMap d" "\<not> isArray d"
    and key: "objectPrototypeMember (keyString (collectionElementIndex P)) = None"
    and par: "parent P = Some Q" "\<not> isRoot Q" "propDesc Q = Some dq"
      "\<not> collectionElement Q" "isMap dq" "\<not> isArray dq"
    and walk: "reduceRightFrom 2 removeValueStep (tl (pointerChain Q)) record h =
                 (Inr (JRef a), h1)"
    and obj: "a < length h1" "h1 ! a = JObject kvs"
    and missing: "map_of kvs (name dq) = None \<and> objectPrototypeMember (name dq) = None \<or>
                  map_of kvs (name dq) = Some JNull \<or> map_of kvs (name dq) = Some JUndefined"
  shows "removeValue P record h = (Inr JUndefined, h @ [JObject []])"
proof -
  have h1: "h1 = h" using walk by (rule walk_remove_unchanged)
  from missing_read [OF obj missing] obtain v0
    where g: "js_get h1 (JRef a) (IndexString (name dq)) = Inr v0"
      and v0: "v0 = JUndefined \<or> v0 = JNull"
    by blast
  have atQ: "removeValueStep (JRef a) Q 1 h1 = (Inr (JRef (length h1)), h1 @ [JObject []])"
    using getImmediateValue_missing [OF par(2,3,4) g v0, of 1 False] par(5,6)
    by (simp add: removeValueStep_above_leaf getValueStep_def emptyContainer_read)
  have toLeaf: "walkToLeaf removeValueStep P record h =
                  (Inr (JRef (length h1)), h1 @ [JObject []])"
    using walk atQ by (simp add: walkToLeaf_parent [OF par(1)])
  have rd: "priv_getImmediateValue P (JRef (length h1)) 0 False (h1 @ [JObject []]) =
              (Inr JUndefined, h1 @ [JObject []])"
    using leaf par(1) key
    by (simp add: priv_getImmediateValue_def isRoot_def js_get_def)
  have del: "removeLeaf P (JRef (length h1)) (h1 @ [JObject []]) = Inr (h1 @ [JObject []])"
    using leaf
    by (simp add: removeLeaf_def js_truthy_def js_delete_def)
  have "removeValueStep (JRef (length h1)) P 0 (h1 @ [JObject []]) =
          (Inr JUndefined, h1 @ [JObject []])"
    using rd del by (simp add: removeValueStep_def)
  with toLeaf par(1) h1 show ?thesis
    by (simp add: removeValue_def isRoot_def reduceRight_chain)
qed

text \<open>
  Claim C10.  A \<^verbatim>\<open>removeValue\<close> whose leaf addresses a map element and whose map
  property is \<^verbatim>\<open>null\<close> or absent raises no error, returns \<^verbatim>\<open>undefined\<close> and
  leaves the record unchanged.  The claim, and the documentation of
  \<^verbatim>\<open>removeValue\<close> (it returns the previous value as \<^verbatim>\<open>getValue\<close> would, which
  is documented to be \<^verbatim>\<open>undefined\<close> for an absent map element), hold for the keys
  of the lemma above only.  The leaf is read with \<^verbatim>\<open>obj[key]\<close>, with no test that
  the property is the object's own, so a key that names a member of
  \<^verbatim>\<open>Object.prototype\<close> finds that member on the empty map that was substituted:
  removing \<^verbatim>\<open>/tags/constructor\<close> from the empty record raises no error and leaves
  the record as it was, but returns the function \<^verbatim>\<open>Object\<close>, not
  \<^verbatim>\<open>undefined\<close>.
\<close>

theorem removeValue_missing_map_inherited_key:
  "removeValue (parsed orderSchema ''/tags/constructor'') (JRef 0) [JObject []] =
     (Inr (JBuiltin ''Object''), [JObject [], JObject []])"
  by code_simp

subsection \<open>Array indices out of bounds\<close>




subsection \<open>Absent values at the leaf\<close>

text \<open>
  At the leaf, \<^verbatim>\<open>getValue\<close> returns \<^verbatim>\<open>null\<close> for an object property that is
  \<^verbatim>\<open>null\<close> in its parent object or absent from it, and \<^verbatim>\<open>undefined\<close> for an
  array element or a map element that is absent from its collection, as long as the
  absent property name or map key is not the name of a member of
  \<^verbatim>\<open>Object.prototype\<close>.
\<close>

lemma getValue_absent_leaf:
  assumes "\<not> isRoot P" and "propDesc P = Some d"
    and "walkToLeaf getValueStep P record h = (Inr (JRef a), h1)" and "a < length h1"
  shows
    "(\<not> collectionElement P \<and> h1 ! a = JObject kvs \<and>
      (map_of kvs (name d) = None \<and> objectPrototypeMember (name d) = None \<or>
       map_of kvs (name d) = Some JNull \<or> map_of kvs (name d) = Some JUndefined) \<longrightarrow>
      getValue P record h = (Inr JNull, h1))
     \<and>
     (collectionElement P \<and> isArray d \<and> collectionElementIndex P = IndexNumber n \<and>
      h1 ! a = JArray xs \<and> length xs \<le> n \<longrightarrow>
      getValue P record h = (Inr JUndefined, h1))
     \<and>
     (collectionElement P \<and> \<not> isArray d \<and> isMap d \<and>
      collectionElementIndex P = IndexString k \<and> h1 ! a = JObject kvs \<and>
      map_of kvs k = None \<and> objectPrototypeMember k = None \<longrightarrow>
      getValue P record h = (Inr JUndefined, h1))"
proof -
  have run: "getValue P record h = priv_getImmediateValue P (JRef a) 0 False h1"
    using assms(3) by (simp add: getValue_def reduceRight_chain getValueStep_def)
  show ?thesis
    unfolding run using assms(1,2,4)
    by (auto simp: priv_getImmediateValue_def js_get_object js_get_array Let_def)
qed

text \<open>An absent property, an absent array element and an absent map key.\<close>

lemma getValue_absent_leaf_example:
  "getValue (parsed orderSchema ''/comment'') (JRef 0) [JObject []] = (Inr JNull, [JObject []])
   \<and> getValue (parsed orderSchema ''/items/1'') (JRef 0) orderHeap = (Inr JUndefined, orderHeap)
   \<and> getValue (parsed orderSchema ''/tags/k'') (JRef 0)
       [JObject [(''tags'', JRef 1)], JObject []] =
     (Inr JUndefined, [JObject [(''tags'', JRef 1)], JObject []])"
proof -
  let ?C = "parsed orderSchema ''/comment''" and ?I = "parsed orderSchema ''/items/1''"
  let ?T = "parsed orderSchema ''/tags/k''"
  let ?h = "[JObject [(''tags'', JRef 1)], JObject []]"
  have C: "\<not> isRoot ?C"
    "propDesc ?C = Some (PropDesc ''comment'' False False ''string'' [] None)"
    "walkToLeaf getValueStep ?C (JRef 0) [JObject []] = (Inr (JRef 0), [JObject []])"
    "\<not> collectionElement ?C"
    by code_simp+
  have I: "\<not> isRoot ?I" "propDesc ?I = Some itemsDesc"
    "walkToLeaf getValueStep ?I (JRef 0) orderHeap = (Inr (JRef 1), orderHeap)"
    "collectionElement ?I" "collectionElementIndex ?I = IndexNumber 1" "isArray itemsDesc"
    by code_simp+
  have T: "\<not> isRoot ?T" "propDesc ?T = Some tagsDesc"
    "walkToLeaf getValueStep ?T (JRef 0) ?h = (Inr (JRef 1), ?h)"
    "collectionElement ?T" "collectionElementIndex ?T = IndexString ''k''"
    "isMap tagsDesc" "\<not> isArray tagsDesc"
    by code_simp+
  have arr: "(1::nat) < length orderHeap" "orderHeap ! 1 = JArray [JRef 2]"
    by (simp_all add: orderHeap_def)
  from getValue_absent_leaf [OF C(1,2,3), where kvs = "[]"] C(4)
  have c: "getValue ?C (JRef 0) [JObject []] = (Inr JNull, [JObject []])"
    by (simp add: objectPrototypeMember_def)
  from getValue_absent_leaf [OF I(1,2,3) arr(1), where n = 1 and xs = "[JRef 2]"] I arr
  have i: "getValue ?I (JRef 0) orderHeap = (Inr JUndefined, orderHeap)" by simp
  from getValue_absent_leaf [OF T(1,2,3), where k = "''k''" and kvs = "[]"] T
  have t: "getValue ?T (JRef 0) ?h = (Inr JUndefined, ?h)"
    by (simp add: objectPrototypeMember_def)
  from c i t show ?thesis by simp
qed

text \<open>
  Claim C6.  At the leaf, \<^verbatim>\<open>getValue\<close> returns \<^verbatim>\<open>null\<close> for an object property
  that is absent from its parent object or \<^verbatim>\<open>null\<close> in it, and \<^verbatim>\<open>undefined\<close> for
  an array or map element that is absent from its collection.  The claim, and the
  documentation of \<^verbatim>\<open>getValue\<close> (\<^verbatim>\<open>null\<close> if no value, \<^verbatim>\<open>undefined\<close> for
  absent array and map elements), hold for the names and keys of the lemma above
  only.  The leaf is read with \<^verbatim>\<open>obj[key]\<close>, with no test
  that the property is the object's own, so a map key that names a member of
  \<^verbatim>\<open>Object.prototype\<close> finds that member: reading \<^verbatim>\<open>/tags/constructor\<close> from a
  record whose map \<^verbatim>\<open>tags\<close> is empty returns the function \<^verbatim>\<open>Object\<close>, not
  \<^verbatim>\<open>undefined\<close>.
\<close>

theorem getValue_absent_leaf_inherited_key:
  "getValue (parsed orderSchema ''/tags/constructor'') (JRef 0)
     [JObject [(''tags'', JRef 1)], JObject []] =
   (Inr (JBuiltin ''Object''), [JObject [(''tags'', JRef 1)], JObject []])"
  by code_simp

end
